theory Spec2Isabelle
  imports Main "HOL-Library.Word" "HOL-Library.Signed_Division"
begin

unbundle bit_operations_syntax

section \<open>Data model of Core/TraceLogger.cpp\<close>

text \<open>
  The types below are the ones \<^verbatim>\<open>TraceLogger.cpp\<close> works on. Their declarations live in
  headers (\<^verbatim>\<open>TraceLogger.h\<close>, \<^verbatim>\<open>DebuggerTypes.h\<close>, \<^verbatim>\<open>Types.h\<close>); only the fields that
  \<^verbatim>\<open>TraceLogger.cpp\<close> reads or writes are kept.

  A \<^verbatim>\<open>shared_ptr<DisassemblyInfo>\<close> is a \<open>handle option\<close>: \<open>None\<close> is the null pointer and
  \<open>Some h\<close> points to the decoded instruction with identity \<open>h\<close>.
\<close>

type_synonym handle = nat

text \<open>
  The logger also keeps two pointers it was constructed with, \<^verbatim>\<open>_memoryManager\<close> and
  \<^verbatim>\<open>_labelManager\<close>; either may be null. A \<open>manager option\<close> is such a pointer.
\<close>

type_synonym manager = nat

datatype StatusFlagFormat = Hexadecimal | Text | CompactText

datatype MemoryOperationType =
  Read | Write | ExecOpCode | ExecOperand | PpuRenderingRead | DummyRead | DmcRead | DummyWrite

record TraceLoggerOptions =
  ShowByteCode :: bool
  ShowRegisters :: bool
  ShowCpuCycles :: bool
  ShowPpuCycles :: bool
  ShowPpuScanline :: bool
  ShowPpuFrames :: bool
  ShowExtraInfo :: bool
  IndentCode :: bool
  UseLabels :: bool
  StatusFormat :: StatusFlagFormat
  Condition :: string

text \<open>
  \<^verbatim>\<open>State\<close> is the CPU snapshot and \<^verbatim>\<open>PPUDebugState\<close> the video snapshot. The counters
  are only ever passed to \<^verbatim>\<open>std::to_string\<close>, so they are kept as the integer they denote.
\<close>

record State =
  DebugPC :: "16 word"
  SP :: "8 word"
  A :: "8 word"
  X :: "8 word"
  Y :: "8 word"
  PS :: "8 word"
  CycleCount :: int

record PPUDebugState =
  Cycle :: int
  Scanline :: int
  FrameCount :: int

record DebugState =
  CPU :: State
  PPU :: PPUDebugState

record OperationInfo =
  Address :: "16 word"
  Value :: int
  OperationType :: MemoryOperationType

text \<open>
  The collaborators \<^verbatim>\<open>TraceLogger.cpp\<close> calls but does not define: \<^verbatim>\<open>HexUtilities::ToHex\<close>
  (on a byte and on a 16-bit address), the three rendering methods of \<^verbatim>\<open>DisassemblyInfo\<close>,
  the two methods of \<^verbatim>\<open>ExpressionEvaluator\<close>, and \<^verbatim>\<open>CPU::GetCycleCount\<close>. They are
  parameters of the model. The rendering methods and the evaluator read the emulator's live
  memory, so the record passed to one call may differ from the record passed to the next.

  \<^verbatim>\<open>ToString\<close> and \<^verbatim>\<open>GetEffectiveAddressString\<close> receive the string to extend by
  reference; here they map its old value to its new one. Their last two arguments are the
  \<^verbatim>\<open>MemoryManager*\<close> and the \<^verbatim>\<open>LabelManager*\<close> they are given, \<open>None\<close> for a null pointer.
  \<^verbatim>\<open>GetByteCode\<close> is always called on an empty string. \<^verbatim>\<open>GetRpnList\<close> returns \<open>None\<close>
  for the null pointer; \<^verbatim>\<open>Evaluate\<close> gives \<open>True\<close> when the condition's value is non-zero.
\<close>

record Collaborators =
  ToHex8 :: "8 word \<Rightarrow> string"
  ToHex16 :: "16 word \<Rightarrow> string"
  GetByteCode :: "handle \<Rightarrow> string"
  ToString :: "string \<Rightarrow> handle \<Rightarrow> 16 word \<Rightarrow> manager option \<Rightarrow> manager option \<Rightarrow> string"
  GetEffectiveAddressString ::
    "string \<Rightarrow> handle \<Rightarrow> State \<Rightarrow> manager option \<Rightarrow> manager option \<Rightarrow> string"
  GetRpnList :: "string \<Rightarrow> int list option"
  Evaluate :: "int list \<Rightarrow> DebugState \<Rightarrow> OperationInfo \<Rightarrow> bool"
  GetCycleCount :: int

section \<open>Status flags\<close>

definition activeStatusLetters :: string where
  "activeStatusLetters = ''NVB-DIZC''"

definition inactiveStatusLetters :: string where
  "inactiveStatusLetters = ''nvb-dizc''"

text \<open>
  The \<^verbatim>\<open>for\<close> loop of \<^verbatim>\<open>GetStatusFlag\<close>: \<open>i\<close> counts the bit positions, \<open>ps\<close> is shifted left
  by one in every round (in 8 bits), \<open>padding\<close> is the signed budget that starts at 6.
\<close>

function statusLoop ::
  "StatusFlagFormat \<Rightarrow> nat \<Rightarrow> 8 word \<Rightarrow> string \<Rightarrow> int \<Rightarrow> string \<times> int" where
  "statusLoop fmt i ps output padding =
     (if i < 8 then
        (if ps AND 0x80 \<noteq> 0 then
           statusLoop fmt (i + 1) (push_bit 1 ps) (output @ [activeStatusLetters ! i]) (padding - 1)
         else if fmt = Text then
           statusLoop fmt (i + 1) (push_bit 1 ps) (output @ [inactiveStatusLetters ! i]) (padding - 1)
         else
           statusLoop fmt (i + 1) (push_bit 1 ps) output padding)
      else (output, padding))"
  by pat_completeness auto
termination
  by (relation "measure (\<lambda>(fmt, i, ps, output, padding). 8 - i)") auto

declare statusLoop.simps [simp del]

definition GetStatusFlag ::
  "Collaborators \<Rightarrow> TraceLoggerOptions \<Rightarrow> string \<Rightarrow> 8 word \<Rightarrow> string" where
  "GetStatusFlag E opts output ps =
     (let out1 = output @ '' P:'' in
      if StatusFormat opts = Hexadecimal then out1 @ ToHex8 E ps
      else
        (case statusLoop (StatusFormat opts) 0 ps out1 6 of
           (out2, padding) \<Rightarrow>
             if padding > 0 then out2 @ replicate (nat padding) CHR '' '' else out2))"


section \<open>Row formatter\<close>

text \<open>
  \<^verbatim>\<open>std::to_string\<close> on an integer: its decimal digits, with a minus sign when negative.
\<close>

function decimal :: "nat \<Rightarrow> string" where
  "decimal n =
     (if n < 10 then [''0123456789'' ! n]
      else decimal (n div 10) @ [''0123456789'' ! (n mod 10)])"
  by pat_completeness auto
termination
  by (relation "measure id") auto

declare decimal.simps [simp del]

definition to_string :: "int \<Rightarrow> string" where
  "to_string v = (if v < 0 then CHR ''-'' # decimal (nat (- v)) else decimal (nat v))"

text \<open>
  What can go wrong inside the logger. \<open>LengthError\<close> is the \<^verbatim>\<open>std::length_error\<close> thrown by
  \<^verbatim>\<open>std::string(n, ' ')\<close> when the unsigned \<open>n\<close> comes from a subtraction below zero
  (\<^verbatim>\<open>13 - byteCode.size()\<close>, \<^verbatim>\<open>3 - str.size()\<close>). \<open>NullDereference\<close> is a call through a
  null \<^verbatim>\<open>shared_ptr\<close>, \<open>OutOfBounds i\<close> a read of a cache array at an index outside
  \<open>[0, ExecutionLogSize)\<close>; both are undefined behaviour in C++, and the model stops there.
  Every operation that can fail returns the error, if any, together with the state as it is
  at that point.
\<close>

datatype error = LengthError | NullDereference | OutOfBounds int

text \<open>
  \<^verbatim>\<open>GetTraceRow\<close>. The handle is dereferenced first by \<^verbatim>\<open>GetByteCode\<close> when byte code is
  shown, otherwise by \<^verbatim>\<open>ToString\<close>, after the indentation has been appended. \<^verbatim>\<open>(int)(32 - code.size())\<close> is negative when the code
  is longer than 32 characters, and \<^verbatim>\<open>std::max\<close> then gives 0: the truncated subtraction on
  \<open>nat\<close>. \<^verbatim>\<open>0xFF - cpuState.SP\<close> is computed in \<^verbatim>\<open>int\<close> and lies in \<open>[0, 255]\<close>.
  \<^verbatim>\<open>GetTraceRow\<close> is a member function: besides \<^verbatim>\<open>_options\<close> it reads the fields
  \<^verbatim>\<open>_memoryManager\<close> and \<^verbatim>\<open>_labelManager\<close>, the arguments \<open>mm\<close> and \<open>lm\<close> here. The
  label manager handed on is \<^verbatim>\<open>_labelManager.get()\<close> when labels are in use, and null otherwise.
\<close>

definition GetTraceRow ::
  "Collaborators \<Rightarrow> TraceLoggerOptions \<Rightarrow> manager option \<Rightarrow> manager option \<Rightarrow> string \<Rightarrow> State
     \<Rightarrow> PPUDebugState \<Rightarrow> handle option \<Rightarrow> bool \<Rightarrow> error option \<times> string" where
  "GetTraceRow E opts mm lm output cpuState ppuState disassemblyInfo firstLine =
     (let out1 = (if \<not> firstLine then output @ [CHR 0x0A] else output);
          out2 = out1 @ ToHex16 E (DebugPC cpuState) @ ''  ''
      in case disassemblyInfo of
           None \<Rightarrow>
             (Some NullDereference,
              if ShowByteCode opts \<or> \<not> IndentCode opts then out2
              else out2 @ replicate (0xFF - unat (SP cpuState)) CHR '' '')
         | Some d \<Rightarrow>
      let byteCode = GetByteCode E d
      in if ShowByteCode opts \<and> 13 < length byteCode then (Some LengthError, out2)
      else
      let out3 = (if ShowByteCode opts
                  then out2 @ byteCode @ replicate (13 - length byteCode) CHR '' ''
                  else out2);
          out4 = (if IndentCode opts
                  then out3 @ replicate (0xFF - unat (SP cpuState)) CHR '' ''
                  else out3);
          labelManager = (if UseLabels opts then lm else None);
          code1 = ToString E [] d (DebugPC cpuState) mm labelManager;
          code2 = GetEffectiveAddressString E code1 d cpuState mm labelManager;
          code3 = code2 @ replicate (32 - length code2) CHR '' '';
          out5 = out4 @ code3;
          out6 = (if ShowRegisters opts
                  then GetStatusFlag E opts
                         (out5 @ '' A:'' @ ToHex8 E (A cpuState) @
                                 '' X:'' @ ToHex8 E (X cpuState) @
                                 '' Y:'' @ ToHex8 E (Y cpuState)) (PS cpuState)
                       @ '' SP:'' @ ToHex8 E (SP cpuState)
                  else out5);
          cyc = to_string (Cycle ppuState)
      in if ShowPpuCycles opts \<and> 3 < length cyc then (Some LengthError, out6)
      else
      let out7 = (if ShowPpuCycles opts
                  then out6 @ '' CYC:'' @ replicate (3 - length cyc) CHR '' '' @ cyc
                  else out6);
          sl = to_string (Scanline ppuState)
      in if ShowPpuScanline opts \<and> 3 < length sl then (Some LengthError, out7)
      else
      let out8 = (if ShowPpuScanline opts
                  then out7 @ '' SL:'' @ replicate (3 - length sl) CHR '' '' @ sl
                  else out7);
          out9 = (if ShowPpuFrames opts
                  then out8 @ '' FC:'' @ to_string (FrameCount ppuState)
                  else out8);
          out10 = (if ShowCpuCycles opts
                   then out9 @ '' CPU Cycle:'' @ to_string (CycleCount cpuState)
                   else out9)
      in (None, out10))"

section \<open>The file sink\<close>

text \<open>
  \<^verbatim>\<open>std::ofstream\<close>, as far as the logger uses it. \<open>failed\<close> is \<^verbatim>\<open>failbit\<close> or \<^verbatim>\<open>badbit\<close>
  (\<^verbatim>\<open>if(_outputFile)\<close> tests its negation), \<open>path\<close> is the file the stream is associated
  with while \<open>is_open\<close>, and \<open>disk\<close> holds the contents of the files, by path. Writes to an
  open stream in good state are taken to succeed (no device error).

  \<^item> \<^verbatim>\<open>open(filename, ios::out | ios::binary)\<close> fails, setting \<^verbatim>\<open>failbit\<close>, when the stream
    is already associated with a file or when the system refuses (\<open>openOk\<close> false);
    otherwise it creates or truncates the file and clears the error state.
  \<^item> \<^verbatim>\<open>operator<<\<close> does nothing on a stream in failed state, appends to the file of an open
    stream, and sets \<^verbatim>\<open>badbit\<close> when characters are sent to a stream that is not open.
  \<^item> \<^verbatim>\<open>close()\<close> ends the association, and sets \<^verbatim>\<open>failbit\<close> when there is none.
\<close>

record ofstream =
  is_open :: bool
  failed :: bool
  path :: string
  disk :: "string \<Rightarrow> string option"

definition ofstream_open :: "bool \<Rightarrow> string \<Rightarrow> ofstream \<Rightarrow> ofstream" where
  "ofstream_open openOk filename f =
     (if is_open f \<or> \<not> openOk then f\<lparr>failed := True\<rparr>
      else f\<lparr>is_open := True, failed := False, path := filename,
             disk := (disk f)(filename \<mapsto> [])\<rparr>)"

definition ofstream_write :: "string \<Rightarrow> ofstream \<Rightarrow> ofstream" where
  "ofstream_write txt f =
     (if failed f then f
      else if is_open f then
        f\<lparr>disk := (disk f)(path f \<mapsto> (case disk f (path f) of None \<Rightarrow> txt | Some c \<Rightarrow> c @ txt))\<rparr>
      else if txt = [] then f
      else f\<lparr>failed := True\<rparr>)"

definition ofstream_close :: "ofstream \<Rightarrow> ofstream" where
  "ofstream_close f = (if is_open f then f\<lparr>is_open := False\<rparr> else f\<lparr>failed := True\<rparr>)"

section \<open>The logger\<close>

text \<open>
  The fields of \<^verbatim>\<open>TraceLogger\<close> (without the leading underscore). \<^verbatim>\<open>ExecutionLogSize\<close>, the
  length of the three cache arrays, is an \<^verbatim>\<open>int\<close> constant of \<^verbatim>\<open>TraceLogger.h\<close>; it is the
  parameter \<open>N\<close> of every operation that uses it. The lock and \<^verbatim>\<open>Console::Pause\<close> /
  \<^verbatim>\<open>Console::Resume\<close> have no effect on the state of a single-threaded run.
\<close>

record TraceLogger =
  options :: TraceLoggerOptions
  memoryManager :: "manager option"
  labelManager :: "manager option"
  conditionRpnList :: "int list"
  outputBuffer :: string
  outputFile :: ofstream
  firstLine :: bool
  lastState :: DebugState
  lastDisassemblyInfo :: "handle option"
  logToFile :: bool
  currentPos :: nat
  cpuStateCache :: "State list"
  ppuStateCache :: "PPUDebugState list"
  disassemblyCache :: "handle option list"
  executionTrace :: string

text \<open>
  The constructor stores the two managers it is given and sets \<^verbatim>\<open>_currentPos\<close> and
  \<^verbatim>\<open>_logToFile\<close>; strings, the condition program and the handles start empty, the snapshot caches zeroed, the stream closed. \<^verbatim>\<open>_options\<close>,
  \<^verbatim>\<open>_firstLine\<close> and \<^verbatim>\<open>_lastState\<close> are not initialised: their first values are parameters.
\<close>

definition TraceLogger_ctor ::
  "nat \<Rightarrow> manager option \<Rightarrow> manager option \<Rightarrow> TraceLoggerOptions \<Rightarrow> bool \<Rightarrow> DebugState
     \<Rightarrow> TraceLogger" where
  "TraceLogger_ctor N memoryManager0 labelManager0 opts0 firstLine0 lastState0 =
     \<lparr>options = opts0, memoryManager = memoryManager0, labelManager = labelManager0,
      conditionRpnList = [], outputBuffer = [],
      outputFile = \<lparr>is_open = False, failed = False, path = [], disk = Map.empty\<rparr>,
      firstLine = firstLine0, lastState = lastState0, lastDisassemblyInfo = None,
      logToFile = False, currentPos = 0,
      cpuStateCache =
        replicate N \<lparr>DebugPC = 0, SP = 0, A = 0, X = 0, Y = 0, PS = 0, CycleCount = 0\<rparr>,
      ppuStateCache = replicate N \<lparr>Cycle = 0, Scanline = 0, FrameCount = 0\<rparr>,
      disassemblyCache = replicate N None, executionTrace = []\<rparr>"

definition SetOptions :: "Collaborators \<Rightarrow> TraceLoggerOptions \<Rightarrow> TraceLogger \<Rightarrow> TraceLogger" where
  "SetOptions E opts s =
     (let s1 = s\<lparr>options := opts, conditionRpnList := []\<rparr>
      in if Condition opts \<noteq> [] then
           (case GetRpnList E (Condition opts) of
              Some rpnList \<Rightarrow> s1\<lparr>conditionRpnList := rpnList\<rparr>
            | None \<Rightarrow> s1)
         else s1)"

definition StartLogging :: "bool \<Rightarrow> string \<Rightarrow> TraceLogger \<Rightarrow> TraceLogger" where
  "StartLogging openOk filename s =
     s\<lparr>outputFile := ofstream_open openOk filename (outputFile s),
       logToFile := True, firstLine := True\<rparr>"

definition StopLogging :: "TraceLogger \<Rightarrow> TraceLogger" where
  "StopLogging s =
     (if logToFile s then
        (let f = outputFile s;
             f' = (if \<not> failed f then
                     ofstream_close
                       (if outputBuffer s \<noteq> [] then ofstream_write (outputBuffer s) f else f)
                   else f)
         in s\<lparr>outputFile := f', logToFile := False\<rparr>)
      else s)"

text \<open>
  \<^verbatim>\<open>LogStatic\<close> is static and works on \<^verbatim>\<open>_instance\<close>, which is null (\<open>None\<close>) when no logger
  exists. The suffix is sent to the stream in five pieces.
\<close>

definition LogStatic :: "Collaborators \<Rightarrow> string \<Rightarrow> TraceLogger option \<Rightarrow> TraceLogger option" where
  "LogStatic E log instance =
     (case instance of
        None \<Rightarrow> None
      | Some s \<Rightarrow>
          if logToFile s \<and> ShowExtraInfo (options s) \<and> \<not> firstLine s then
            (let f1 = ofstream_write (outputBuffer s) (outputFile s);
                 f2 = ofstream_write '' - ['' f1;
                 f3 = ofstream_write log f2;
                 f4 = ofstream_write '' - Cycle: '' f3;
                 f5 = ofstream_write (to_string (GetCycleCount E)) f4;
                 f6 = ofstream_write '']'' f5
             in Some (s\<lparr>outputFile := f6, outputBuffer := []\<rparr>))
          else Some s)"

text \<open>
  \<^verbatim>\<open>ConditionMatches\<close> and \<^verbatim>\<open>AddRow\<close> take the handle by reference
  (\<^verbatim>\<open>shared_ptr<DisassemblyInfo>&\<close>). \<^verbatim>\<open>Log\<close> passes its own by-value parameter, a pointer
  no field of the logger shares; \<^verbatim>\<open>LogNonExec\<close> passes the field \<^verbatim>\<open>_lastDisassemblyInfo\<close>
  itself. A reference is therefore either \<open>Local h\<close>, with the pointer it refers to, or
  \<open>Member\<close>, whose target is read from the state each time it is used. The \<^verbatim>\<open>DebugState&\<close>
  argument is passed by value: \<^verbatim>\<open>LogNonExec\<close> passes \<^verbatim>\<open>_lastState\<close>, which \<^verbatim>\<open>AddRow\<close> does
  not write and \<^verbatim>\<open>ConditionMatches\<close> only assigns to itself.
\<close>

datatype handle_ref = Local "handle option" | Member

definition deref :: "handle_ref \<Rightarrow> TraceLogger \<Rightarrow> handle option" where
  "deref r s = (case r of Local h \<Rightarrow> h | Member \<Rightarrow> lastDisassemblyInfo s)"

definition ConditionMatches ::
  "Collaborators \<Rightarrow> DebugState \<Rightarrow> handle_ref \<Rightarrow> OperationInfo \<Rightarrow> TraceLogger
     \<Rightarrow> bool \<times> TraceLogger" where
  "ConditionMatches E state disassemblyInfo operationInfo s =
     (if conditionRpnList s \<noteq> [] then
        (if \<not> Evaluate E (conditionRpnList s) state operationInfo then
           (if OperationType operationInfo = ExecOpCode
            then (False, s\<lparr>lastState := state, lastDisassemblyInfo := deref disassemblyInfo s\<rparr>)
            else (False, s))
         else (True, s))
      else (True, s))"

definition AddRow ::
  "Collaborators \<Rightarrow> nat \<Rightarrow> handle_ref \<Rightarrow> DebugState \<Rightarrow> TraceLogger
     \<Rightarrow> error option \<times> TraceLogger" where
  "AddRow E N disassemblyInfo state s =
     (let s1 = s\<lparr>disassemblyCache := (disassemblyCache s)[currentPos s := deref disassemblyInfo s],
                 cpuStateCache := (cpuStateCache s)[currentPos s := CPU state],
                 ppuStateCache := (ppuStateCache s)[currentPos s := PPU state],
                 currentPos := (currentPos s + 1) mod N,
                 lastDisassemblyInfo := None\<rparr>
      in if logToFile s1 then
           (case GetTraceRow E (options s1) (memoryManager s1) (labelManager s1) (outputBuffer s1) (CPU state) (PPU state)
                   (deref disassemblyInfo s1) (firstLine s1) of
              (Some e, buf) \<Rightarrow> (Some e, s1\<lparr>outputBuffer := buf\<rparr>)
            | (None, buf) \<Rightarrow>
                (let s2 = s1\<lparr>outputBuffer := buf\<rparr>;
                     s3 = (if 32768 < length (outputBuffer s2)
                           then s2\<lparr>outputFile := ofstream_write (outputBuffer s2) (outputFile s2),
                                   outputBuffer := []\<rparr>
                           else s2)
                 in (None, s3\<lparr>firstLine := False\<rparr>)))
         else (None, s1))"

definition LogNonExec ::
  "Collaborators \<Rightarrow> nat \<Rightarrow> OperationInfo \<Rightarrow> TraceLogger \<Rightarrow> error option \<times> TraceLogger" where
  "LogNonExec E N operationInfo s =
     (if lastDisassemblyInfo s \<noteq> None then
        (case ConditionMatches E (lastState s) Member operationInfo s of
           (True, s1) \<Rightarrow> AddRow E N Member (lastState s1) s1
         | (False, s1) \<Rightarrow> (None, s1))
      else (None, s))"

definition Log ::
  "Collaborators \<Rightarrow> nat \<Rightarrow> DebugState \<Rightarrow> handle option \<Rightarrow> OperationInfo \<Rightarrow> TraceLogger
     \<Rightarrow> error option \<times> TraceLogger" where
  "Log E N state disassemblyInfo operationInfo s =
     (if disassemblyInfo \<noteq> None then
        (case ConditionMatches E state (Local disassemblyInfo) operationInfo s of
           (True, s1) \<Rightarrow> AddRow E N (Local disassemblyInfo) state s1
         | (False, s1) \<Rightarrow> (None, s1))
      else (None, s))"

text \<open>
  \<^verbatim>\<open>GetExecutionTrace\<close>. \<^verbatim>\<open>_currentPos + ExecutionLogSize - lineCount\<close> mixes \<^verbatim>\<open>int\<close> with
  \<^verbatim>\<open>uint32_t\<close>, so the subtraction is done modulo \<open>2^32\<close> and the result read back as a signed
  \<^verbatim>\<open>int\<close>. The loop runs while \<^verbatim>\<open>i < (int)lineCount\<close>, and \<^verbatim>\<open>%\<close> on \<^verbatim>\<open>int\<close> truncates towards
  zero (\<open>smod\<close>), so a negative \<^verbatim>\<open>startPos + i\<close> gives a negative index. Whenever the loop runs,
  \<open>lineCount < 2^31\<close>, and then \<^verbatim>\<open>startPos + i\<close> stays between \<open>- 2^31\<close> and
  \<open>_currentPos + ExecutionLogSize\<close>: the additions on \<^verbatim>\<open>int\<close> do not overflow.
  The function returns a pointer to \<^verbatim>\<open>_executionTrace\<close>: the result is that field of the
  state returned.
\<close>

function traceLoop ::
  "Collaborators \<Rightarrow> nat \<Rightarrow> int \<Rightarrow> int \<Rightarrow> int \<Rightarrow> bool \<Rightarrow> TraceLogger
     \<Rightarrow> error option \<times> TraceLogger" where
  "traceLoop E N lineCount startPos i first s =
     (if i < lineCount then
        (let index = (startPos + i) smod int N
         in if index < 0 \<or> int N \<le> index then (Some (OutOfBounds index), s)
            else
              (case disassemblyCache s ! nat index of
                 None \<Rightarrow> traceLoop E N lineCount startPos (i + 1) first s
               | Some d \<Rightarrow>
                   (case GetTraceRow E (options s) (memoryManager s) (labelManager s) (executionTrace s)
                           (cpuStateCache s ! nat index) (ppuStateCache s ! nat index)
                           (Some d) first of
                      (Some e, out) \<Rightarrow> (Some e, s\<lparr>executionTrace := out\<rparr>)
                    | (None, out) \<Rightarrow>
                        traceLoop E N lineCount startPos (i + 1) False
                          (s\<lparr>executionTrace := out\<rparr>))))
      else (None, s))"
  by pat_completeness auto
termination
  by (relation "measure (\<lambda>(E, N, lineCount, startPos, i, first, s). nat (lineCount - i))")
     auto

declare traceLoop.simps [simp del]

definition GetExecutionTrace ::
  "Collaborators \<Rightarrow> nat \<Rightarrow> 32 word \<Rightarrow> TraceLogger \<Rightarrow> error option \<times> TraceLogger" where
  "GetExecutionTrace E N lineCount s =
     (let s1 = s\<lparr>executionTrace := []\<rparr>;
          startPos = sint ((word_of_nat (currentPos s1 + N) :: 32 word) - lineCount)
      in traceLoop E N (sint lineCount) startPos 0 True s1)"

section \<open>Runs of the public interface\<close>

text \<open>
  The constructor establishes, and every operation keeps, the shape of the ring: a cursor
  inside the three arrays of length \<open>N\<close>.
\<close>

definition ring_ok :: "nat \<Rightarrow> TraceLogger \<Rightarrow> bool" where
  "ring_ok N s =
     (0 < N \<and> currentPos s < N \<and> length (disassemblyCache s) = N \<and>
      length (cpuStateCache s) = N \<and> length (ppuStateCache s) = N)"

text \<open>
  One call of a public member function, with the collaborators as they answer during that
  call and, for \<^verbatim>\<open>StartLogging\<close>, whether the system lets the file be opened. A run performs
  calls in order and ends at the first one that fails.
\<close>

datatype call =
    CallSetOptions TraceLoggerOptions
  | CallStartLogging bool string
  | CallStopLogging
  | CallLogStatic string
  | CallLog DebugState "handle option" OperationInfo
  | CallLogNonExec OperationInfo
  | CallGetExecutionTrace "32 word"

fun perform :: "nat \<Rightarrow> Collaborators \<Rightarrow> call \<Rightarrow> TraceLogger \<Rightarrow> error option \<times> TraceLogger" where
  "perform N E (CallSetOptions opts) s = (None, SetOptions E opts s)"
| "perform N E (CallStartLogging openOk filename) s = (None, StartLogging openOk filename s)"
| "perform N E CallStopLogging s = (None, StopLogging s)"
| "perform N E (CallLogStatic log) s =
     (case LogStatic E log (Some s) of Some s' \<Rightarrow> (None, s') | None \<Rightarrow> (None, s))"
| "perform N E (CallLog state disassemblyInfo operationInfo) s =
     Log E N state disassemblyInfo operationInfo s"
| "perform N E (CallLogNonExec operationInfo) s = LogNonExec E N operationInfo s"
| "perform N E (CallGetExecutionTrace lineCount) s = GetExecutionTrace E N lineCount s"

fun performAll ::
  "nat \<Rightarrow> (Collaborators \<times> call) list \<Rightarrow> TraceLogger \<Rightarrow> error option \<times> TraceLogger" where
  "performAll N [] s = (None, s)"
| "performAll N ((E, c) # cs) s =
     (case perform N E c s of
        (Some e, s') \<Rightarrow> (Some e, s')
      | (None, s') \<Rightarrow> performAll N cs s')"

text \<open>
  The specification's view of a run (sections 4.1, 4.2 and 4.5): the gate passes when the
  condition program is empty or the evaluator says so; a \<open>record\<close> call with a handle, or a
  \<open>recordPending\<close> call with a pending slot, writes one row to the Ring Store when the gate
  passes, and no other call writes. \<open>rowsWritten\<close> lists the rows a run writes, in order.
\<close>

definition gatePasses ::
  "Collaborators \<Rightarrow> DebugState \<Rightarrow> OperationInfo \<Rightarrow> TraceLogger \<Rightarrow> bool" where
  "gatePasses E state operationInfo s =
     (conditionRpnList s = [] \<or> Evaluate E (conditionRpnList s) state operationInfo)"

fun rowOf :: "Collaborators \<Rightarrow> call \<Rightarrow> TraceLogger \<Rightarrow> (handle \<times> DebugState) option" where
  "rowOf E (CallLog state (Some d) operationInfo) s =
     (if gatePasses E state operationInfo s then Some (d, state) else None)"
| "rowOf E (CallLogNonExec operationInfo) s =
     (case lastDisassemblyInfo s of
        Some d \<Rightarrow> if gatePasses E (lastState s) operationInfo s then Some (d, lastState s) else None
      | None \<Rightarrow> None)"
| "rowOf E c s = None"

fun rowsWritten ::
  "nat \<Rightarrow> (Collaborators \<times> call) list \<Rightarrow> TraceLogger \<Rightarrow> (handle \<times> DebugState) list" where
  "rowsWritten N [] s = []"
| "rowsWritten N ((E, c) # cs) s =
     (case rowOf E c s of Some row \<Rightarrow> [row] | None \<Rightarrow> []) @
     (case perform N E c s of (Some e, s') \<Rightarrow> [] | (None, s') \<Rightarrow> rowsWritten N cs s')"

text \<open>
  Rendering a list of rows, oldest first, into one block: the first row without a leading
  newline, every later one with it, ending at the first row the formatter fails on.
\<close>

fun renderRows ::
  "Collaborators \<Rightarrow> TraceLoggerOptions \<Rightarrow> manager option \<Rightarrow> manager option
     \<Rightarrow> (handle \<times> DebugState) list \<Rightarrow> bool \<Rightarrow> string \<Rightarrow> error option \<times> string" where
  "renderRows E opts mm lm [] first out = (None, out)"
| "renderRows E opts mm lm ((d, state) # rows) first out =
     (case GetTraceRow E opts mm lm out (CPU state) (PPU state) (Some d) first of
        (Some e, out') \<Rightarrow> (Some e, out')
      | (None, out') \<Rightarrow> renderRows E opts mm lm rows False out')"

text \<open>
  \<open>ringStore\<close> is the Ring Store proper: the three arrays and the cursor.
  The ring seen in the order of writing: the slot under the cursor is the oldest one, the
  slot before the cursor the newest. \<open>renderSlots\<close> renders such a list of slots, leaving
  out the empty ones.
\<close>

definition ringStore ::
  "TraceLogger \<Rightarrow> handle option list \<times> State list \<times> PPUDebugState list \<times> nat" where
  "ringStore s = (disassemblyCache s, cpuStateCache s, ppuStateCache s, currentPos s)"

definition slotAt :: "TraceLogger \<Rightarrow> nat \<Rightarrow> handle option \<times> State \<times> PPUDebugState" where
  "slotAt s j = (disassemblyCache s ! j, cpuStateCache s ! j, ppuStateCache s ! j)"

definition ringView :: "nat \<Rightarrow> TraceLogger \<Rightarrow> (handle option \<times> State \<times> PPUDebugState) list" where
  "ringView N s = map (\<lambda>i. slotAt s ((currentPos s + i) mod N)) [0..<N]"

definition slotOf :: "handle \<times> DebugState \<Rightarrow> handle option \<times> State \<times> PPUDebugState" where
  "slotOf row = (Some (fst row), CPU (snd row), PPU (snd row))"

fun renderSlots ::
  "Collaborators \<Rightarrow> TraceLoggerOptions \<Rightarrow> manager option \<Rightarrow> manager option
     \<Rightarrow> (handle option \<times> State \<times> PPUDebugState) list \<Rightarrow> bool \<Rightarrow> string
     \<Rightarrow> error option \<times> string" where
  "renderSlots E opts mm lm [] first out = (None, out)"
| "renderSlots E opts mm lm ((None, cpu, ppu) # slots) first out = renderSlots E opts mm lm slots first out"
| "renderSlots E opts mm lm ((Some d, cpu, ppu) # slots) first out =
     (case GetTraceRow E opts mm lm out cpu ppu (Some d) first of
        (Some e, out') \<Rightarrow> (Some e, out')
      | (None, out') \<Rightarrow> renderSlots E opts mm lm slots False out')"

text \<open>The letters of the status field, by bit position counted from the most significant bit.\<close>

definition textLetter :: "8 word \<Rightarrow> nat \<Rightarrow> char" where
  "textLetter ps j =
     (if bit ps (7 - j) then activeStatusLetters ! j else inactiveStatusLetters ! j)"

definition setLetters :: "8 word \<Rightarrow> string" where
  "setLetters ps = map (\<lambda>j. activeStatusLetters ! j) (filter (\<lambda>j. bit ps (7 - j)) [0..<8])"

text \<open>
  A concrete setting on which the model is run: collaborators that render a one-byte
  \<^verbatim>\<open>NOP\<close> and let a condition pass on every operation but an opcode fetch, plain options,
  one snapshot, and a freshly constructed logger.
\<close>

definition hexDigit :: "nat \<Rightarrow> char" where
  "hexDigit n = ''0123456789ABCDEF'' ! n"

definition sampleCollaborators :: Collaborators where
  "sampleCollaborators =
     \<lparr>ToHex8 = (\<lambda>b. [hexDigit (unat b div 16), hexDigit (unat b mod 16)]),
      ToHex16 = (\<lambda>w. [hexDigit (unat w div 4096), hexDigit (unat w div 256 mod 16),
                       hexDigit (unat w div 16 mod 16), hexDigit (unat w mod 16)]),
      GetByteCode = (\<lambda>d. ''$EA''),
      ToString = (\<lambda>out d pc memory labels. out @ ''NOP''),
      GetEffectiveAddressString = (\<lambda>out d cpu memory labels. out),
      GetRpnList = (\<lambda>c. if c = ''?'' then None else Some [1]),
      Evaluate = (\<lambda>rpn state operationInfo. OperationType operationInfo \<noteq> ExecOpCode),
      GetCycleCount = 7\<rparr>"

definition sampleOptions :: TraceLoggerOptions where
  "sampleOptions =
     \<lparr>ShowByteCode = False, ShowRegisters = False, ShowCpuCycles = False,
      ShowPpuCycles = False, ShowPpuScanline = False, ShowPpuFrames = False,
      ShowExtraInfo = True, IndentCode = False, UseLabels = False,
      StatusFormat = Text, Condition = []\<rparr>"

definition sampleState :: DebugState where
  "sampleState =
     \<lparr>CPU = \<lparr>DebugPC = 0x8000, SP = 0xFD, A = 0, X = 0, Y = 0, PS = 0x91, CycleCount = 7\<rparr>,
      PPU = \<lparr>Cycle = 21, Scanline = 0, FrameCount = 1\<rparr>\<rparr>"

definition sampleFetch :: OperationInfo where
  "sampleFetch = \<lparr>Address = 0x8000, Value = 0xEA, OperationType = ExecOpCode\<rparr>"

definition sampleWrite :: OperationInfo where
  "sampleWrite = \<lparr>Address = 0x2000, Value = 0, OperationType = Write\<rparr>"

definition sampleLogger :: "nat \<Rightarrow> TraceLogger" where
  "sampleLogger N = TraceLogger_ctor N (Some 0) (Some 1) sampleOptions False sampleState"

text \<open>
  States reached from a fresh logger with two slots: \<open>sampleSession\<close> after a session
  was started on \<open>a.txt\<close> and one instruction recorded; \<open>sampleGated\<close> after a condition
  was set; \<open>samplePending\<close> after, with that condition and a session active, an opcode fetch
  was offered and held back by the gate. \<open>sampleCalls\<close> records three instructions.
\<close>

definition sampleSession :: TraceLogger where
  "sampleSession =
     snd (Log sampleCollaborators 2 sampleState (Some 5) sampleFetch
            (StartLogging True ''a.txt'' (sampleLogger 2)))"

definition sampleGated :: TraceLogger where
  "sampleGated =
     SetOptions sampleCollaborators (sampleOptions\<lparr>Condition := ''a == 1''\<rparr>) (sampleLogger 2)"

definition samplePending :: TraceLogger where
  "samplePending =
     snd (Log sampleCollaborators 2 sampleState (Some 5) sampleFetch
            (StartLogging True ''a.txt'' sampleGated))"

definition sampleAt :: "16 word \<Rightarrow> DebugState" where
  "sampleAt pc = sampleState\<lparr>CPU := (CPU sampleState)\<lparr>DebugPC := pc\<rparr>\<rparr>"

definition sampleCalls :: "(Collaborators \<times> call) list" where
  "sampleCalls =
     [(sampleCollaborators, CallLog (sampleAt 0x8000) (Some 1) sampleFetch),
      (sampleCollaborators, CallLog (sampleAt 0x8001) (Some 2) sampleFetch),
      (sampleCollaborators, CallLog (sampleAt 0x8002) (Some 3) sampleFetch)]"

text \<open>The calls that open the sink.\<close>

fun startCall :: "call \<Rightarrow> bool" where
  "startCall (CallStartLogging openOk filename) = True"
| "startCall c = False"

section \<open>Status flags: the field \<^verbatim>\<open>GetStatusFlag\<close> appends\<close>

lemma msb_test: "i < 8 \<Longrightarrow> (push_bit i (ps::8 word) AND 0x80 \<noteq> 0) = bit ps (7 - i)"
proof -
  assume i: "i < 8"
  have "(0x80 :: 8 word) = 2 ^ 7" by simp
  then have "(push_bit i ps AND 0x80 = 0) = (\<not> bit (push_bit i ps) 7)"
    by (simp only: and_exp_eq_0_iff_not_bit)
  also have "bit (push_bit i ps) 7 = bit ps (7 - i)"
    using i by (auto simp: bit_push_bit_iff)
  finally show ?thesis by simp
qed

lemma shift_again: "push_bit 1 (push_bit i (ps::8 word)) = push_bit (i + 1) ps"
  by simp

text \<open>
  After \<open>i\<close> rounds the loop holds the byte shifted by \<open>i\<close>; from there it emits the letters
  of the positions \<open>i\<close> to 7.
\<close>

lemma statusLoop_Text:
  "i \<le> 8 \<Longrightarrow>
   statusLoop Text i (push_bit i ps) out p = (out @ map (textLetter ps) [i..<8], p - int (8 - i))"
proof (induction "8 - i" arbitrary: i out p)
  case 0
  then show ?case by (simp add: statusLoop.simps)
next
  case (Suc k)
  then have i: "i < 8" by simp
  have step: "statusLoop Text (i + 1) (push_bit (i + 1) ps) out' p' =
      (out' @ map (textLetter ps) [i + 1..<8], p' - int (8 - (i + 1)))" for out' p'
    using Suc.hyps(1)[of "i + 1" out' p'] Suc.hyps(2) i by simp
  have up: "[i..<8] = i # [i + 1..<8]" using i by (simp add: upt_conv_Cons)
  show ?case
    apply (subst statusLoop.simps)
    apply (simp only: shift_again msb_test[OF i] step up)
    using i apply (simp add: textLetter_def)
    done
qed

lemma statusLoop_Compact:
  "i \<le> 8 \<Longrightarrow>
   statusLoop CompactText i (push_bit i ps) out p =
     (out @ map (\<lambda>j. activeStatusLetters ! j) (filter (\<lambda>j. bit ps (7 - j)) [i..<8]),
      p - int (length (filter (\<lambda>j. bit ps (7 - j)) [i..<8])))"
proof (induction "8 - i" arbitrary: i out p)
  case 0
  then show ?case by (simp add: statusLoop.simps)
next
  case (Suc k)
  then have i: "i < 8" by simp
  have step: "statusLoop CompactText (i + 1) (push_bit (i + 1) ps) out' p' =
      (out' @ map (\<lambda>j. activeStatusLetters ! j) (filter (\<lambda>j. bit ps (7 - j)) [i + 1..<8]),
       p' - int (length (filter (\<lambda>j. bit ps (7 - j)) [i + 1..<8])))" for out' p'
    using Suc.hyps(1)[of "i + 1" out' p'] Suc.hyps(2) i by simp
  have up: "[i..<8] = i # [i + 1..<8]" using i by (simp add: upt_conv_Cons)
  show ?case
    apply (subst statusLoop.simps)
    apply (simp only: shift_again msb_test[OF i] step up)
    using i apply simp
    done
qed

lemma GetStatusFlag_Text:
  assumes "StatusFormat opts = Text"
  shows "GetStatusFlag E opts output ps = output @ '' P:'' @ map (textLetter ps) [0..<8]"
  using statusLoop_Text[of 0 ps "output @ '' P:''" 6] assms
  by (simp add: GetStatusFlag_def)

lemma GetStatusFlag_Compact:
  assumes "StatusFormat opts = CompactText"
  shows "GetStatusFlag E opts output ps =
           output @ '' P:'' @ setLetters ps @ replicate (6 - length (setLetters ps)) CHR '' ''"
  using statusLoop_Compact[of 0 ps "output @ '' P:''" 6] assms
  by (auto simp add: GetStatusFlag_def setLetters_def nat_diff_distrib')

lemma upt8: "[0..<8] = [0, 1, 2, 3, 4, 5, 6, 7]"
  by (simp add: upt_conv_Cons)

lemma textLetters_0x91: "map (textLetter 0x91) [0..<8] = ''Nvb-dizC''"
  by (simp add: upt8 textLetter_def activeStatusLetters_def inactiveStatusLetters_def)

lemma setLetters_0x91: "setLetters 0x91 = ''N-C''"
  by (simp add: upt8 setLetters_def activeStatusLetters_def)

lemma setLetters_0xFF: "setLetters 0xFF = ''NVB-DIZC''"
  by (simp add: upt8 setLetters_def activeStatusLetters_def)

lemma setLetters_length: "length (setLetters ps) \<le> 8"
  using length_filter_le[of "\<lambda>j. bit ps (7 - j)" "[0..<8]"] by (simp add: setLetters_def)

section \<open>Facts about the sink, the gate and one write\<close>


lemma write_twice: "ofstream_write t2 (ofstream_write t1 f) = ofstream_write (t1 @ t2) f"
  by (cases "disk f (path f)") (auto simp: ofstream_write_def fun_eq_iff)

lemma write_open:
  "is_open f \<Longrightarrow> \<not> failed f \<Longrightarrow> disk f (path f) = Some c \<Longrightarrow>
   disk (ofstream_write txt f) (path f) = Some (c @ txt)"
  by (simp add: ofstream_write_def)

lemma AddRow_ring:
  "disassemblyCache (snd (AddRow E N r state s)) = (disassemblyCache s)[currentPos s := deref r s] \<and>
   cpuStateCache (snd (AddRow E N r state s)) = (cpuStateCache s)[currentPos s := CPU state] \<and>
   ppuStateCache (snd (AddRow E N r state s)) = (ppuStateCache s)[currentPos s := PPU state] \<and>
   currentPos (snd (AddRow E N r state s)) = (currentPos s + 1) mod N \<and>
   lastDisassemblyInfo (snd (AddRow E N r state s)) = None"
  by (simp add: AddRow_def Let_def split: prod.split option.split)

lemma ConditionMatches_empty:
  "conditionRpnList s = [] \<Longrightarrow> ConditionMatches E state r operationInfo s = (True, s)"
  by (simp add: ConditionMatches_def)

lemma SetOptions_no_program:
  "Condition opts = [] \<or> GetRpnList E (Condition opts) = None \<Longrightarrow>
   conditionRpnList (SetOptions E opts s) = []"
  by (auto simp: SetOptions_def Let_def)

lemma sample_row:
  "GetTraceRow sampleCollaborators sampleOptions mm lm out (CPU sampleState) (PPU sampleState) (Some d) first
     = (None, (if first then out else out @ [CHR 0x0A]) @ ''8000  NOP'' @ replicate 29 CHR '' '')"
  by (simp add: GetTraceRow_def sampleCollaborators_def sampleOptions_def sampleState_def
      hexDigit_def Let_def)




lemma LogStatic_active:
  "logToFile s \<Longrightarrow> ShowExtraInfo (options s) \<Longrightarrow> \<not> firstLine s \<Longrightarrow>
   LogStatic E log (Some s) =
     Some (s\<lparr>outputFile :=
               ofstream_write
                 (outputBuffer s @ '' - ['' @ log @ '' - Cycle: '' @ to_string (GetCycleCount E) @ '']'')
                 (outputFile s),
             outputBuffer := []\<rparr>)"
  by (simp add: LogStatic_def Let_def write_twice)

lemma LogStatic_idle:
  "\<not> (logToFile s \<and> ShowExtraInfo (options s) \<and> \<not> firstLine s) \<Longrightarrow>
   LogStatic E log (Some s) = Some s"
  by (auto simp add: LogStatic_def)

lemma StartLogging_firstLine: "firstLine (StartLogging openOk filename s)"
  by (simp add: StartLogging_def)



section \<open>The ring in the order of writing\<close>

lemma ring_ok_ringStore: "ringStore s' = ringStore s \<Longrightarrow> ring_ok N s' = ring_ok N s"
  by (simp add: ring_ok_def ringStore_def)

lemma ringView_ringStore: "ringStore s' = ringStore s \<Longrightarrow> ringView N s' = ringView N s"
  by (simp add: ringView_def slotAt_def ringStore_def)

lemma next_slot_differs:
  assumes "cur < N" and "i + 1 < N"
  shows "(cur + 1 + i) mod N \<noteq> (cur::nat)"
proof (cases "cur + 1 + i < N")
  case True
  then show ?thesis by simp
next
  case False
  then have "(cur + 1 + i) mod N = cur + 1 + i - N"
    using assms by (simp add: mod_if)
  then show ?thesis using assms False by simp
qed

lemma AddRow_ring_ok: "ring_ok N s \<Longrightarrow> ring_ok N (snd (AddRow E N r state s))"
  using AddRow_ring[of E N r state s] by (simp add: ring_ok_def)

lemma AddRow_view:
  assumes ok: "ring_ok N s"
  shows "ringView N (snd (AddRow E N r state s))
           = tl (ringView N s) @ [(deref r s, CPU state, PPU state)]"
proof (rule nth_equalityI)
  show "length (ringView N (snd (AddRow E N r state s)))
          = length (tl (ringView N s) @ [(deref r s, CPU state, PPU state)])"
    using ok by (simp add: ringView_def ring_ok_def)
next
  fix i
  assume "i < length (ringView N (snd (AddRow E N r state s)))"
  then have i: "i < N" by (simp add: ringView_def)
  let ?s' = "snd (AddRow E N r state s)"
  have cur: "currentPos s < N" and len: "length (disassemblyCache s) = N"
    "length (cpuStateCache s) = N" "length (ppuStateCache s) = N"
    using ok by (simp_all add: ring_ok_def)
  have idx: "(currentPos ?s' + i) mod N = (currentPos s + 1 + i) mod N"
    using AddRow_ring[of E N r state s] by (simp add: mod_add_left_eq)
  have lhs: "ringView N ?s' ! i = slotAt ?s' ((currentPos s + 1 + i) mod N)"
    using i idx by (simp add: ringView_def)
  show "ringView N ?s' ! i = (tl (ringView N s) @ [(deref r s, CPU state, PPU state)]) ! i"
  proof (cases "i + 1 < N")
    case True
    have ne: "(currentPos s + 1 + i) mod N \<noteq> currentPos s"
      by (rule next_slot_differs[OF cur True])
    have "slotAt ?s' ((currentPos s + 1 + i) mod N) = slotAt s ((currentPos s + 1 + i) mod N)"
      using AddRow_ring[of E N r state s] ne by (simp add: slotAt_def)
    moreover have "(tl (ringView N s) @ [(deref r s, CPU state, PPU state)]) ! i
                     = slotAt s ((currentPos s + 1 + i) mod N)"
    proof -
      have il: "i < length (tl (ringView N s))" using True by (simp add: ringView_def)
      then have "(tl (ringView N s) @ [(deref r s, CPU state, PPU state)]) ! i
                   = ringView N s ! (i + 1)"
        by (simp add: nth_append nth_tl)
      also have "\<dots> = slotAt s ((currentPos s + (i + 1)) mod N)"
        using True by (simp add: ringView_def)
      finally show ?thesis by (simp add: add.assoc)
    qed
    ultimately show ?thesis using lhs by simp
  next
    case False
    then have iN: "i = N - 1" and N: "0 < N" using i by simp_all
    have "(currentPos s + 1 + i) mod N = currentPos s"
      using iN N cur by simp
    moreover have "slotAt ?s' (currentPos s) = (deref r s, CPU state, PPU state)"
      using AddRow_ring[of E N r state s] cur len by (simp add: slotAt_def)
    moreover have "(tl (ringView N s) @ [(deref r s, CPU state, PPU state)]) ! i
                     = (deref r s, CPU state, PPU state)"
      using iN N by (simp add: nth_append ringView_def)
    ultimately show ?thesis using lhs by simp
  qed
qed

lemma traceLoop_frame:
  "\<exists>t. snd (traceLoop E N lineCount startPos i first s) = s\<lparr>executionTrace := t\<rparr>"
proof (induction E N lineCount startPos i first s rule: traceLoop.induct)
  case (1 E N lineCount startPos i first s)
  have same: "s = s\<lparr>executionTrace := executionTrace s\<rparr>" by simp
  show ?case
  proof (cases "i < lineCount")
    case False
    then have "traceLoop E N lineCount startPos i first s = (None, s)"
      by (subst traceLoop.simps) simp
    then have "snd (traceLoop E N lineCount startPos i first s) = s\<lparr>executionTrace := executionTrace s\<rparr>"
      using same by simp
    then show ?thesis by (rule exI)
  next
    case run: True
    define index where "index = (startPos + i) smod int N"
    show ?thesis
    proof (cases "index < 0 \<or> int N \<le> index")
      case True
      then have "traceLoop E N lineCount startPos i first s = (Some (OutOfBounds index), s)"
        using run by (subst traceLoop.simps) (simp add: index_def Let_def)
      then have "snd (traceLoop E N lineCount startPos i first s) = s\<lparr>executionTrace := executionTrace s\<rparr>"
        using same by simp
      then show ?thesis by (rule exI)
    next
      case inr: False
      show ?thesis
      proof (cases "disassemblyCache s ! nat index")
        case None
        then have "traceLoop E N lineCount startPos i first s
                     = traceLoop E N lineCount startPos (i + 1) first s"
          using run inr by (subst traceLoop.simps) (simp add: index_def Let_def)
        then show ?thesis
          using "1.IH"(1)[OF run index_def inr None] by simp
      next
        case (Some d)
        obtain e out where g: "GetTraceRow E (options s) (memoryManager s) (labelManager s) (executionTrace s)
                (cpuStateCache s ! nat index) (ppuStateCache s ! nat index) (Some d) first = (e, out)"
          by (cases "GetTraceRow E (options s) (memoryManager s) (labelManager s) (executionTrace s)
                (cpuStateCache s ! nat index) (ppuStateCache s ! nat index) (Some d) first") simp
        show ?thesis
        proof (cases e)
          case None
          obtain t where t: "snd (traceLoop E N lineCount startPos (i + 1) False (s\<lparr>executionTrace := out\<rparr>))
              = s\<lparr>executionTrace := out\<rparr>\<lparr>executionTrace := t\<rparr>"
            using "1.IH"(2)[OF run index_def inr Some g[symmetric] None] by blast
          have "traceLoop E N lineCount startPos i first s
                  = traceLoop E N lineCount startPos (i + 1) False (s\<lparr>executionTrace := out\<rparr>)"
            using run inr Some g None by (subst traceLoop.simps) (simp add: index_def Let_def)
          then have "snd (traceLoop E N lineCount startPos i first s) = s\<lparr>executionTrace := t\<rparr>"
            using t by simp
          then show ?thesis by (rule exI)
        next
          case (Some err)
          then have "traceLoop E N lineCount startPos i first s = (Some err, s\<lparr>executionTrace := out\<rparr>)"
            using run inr \<open>disassemblyCache s ! nat index = Some d\<close> g
            by (subst traceLoop.simps) (simp add: index_def Let_def)
          then have "snd (traceLoop E N lineCount startPos i first s) = s\<lparr>executionTrace := out\<rparr>"
            by simp
          then show ?thesis by (rule exI)
        qed
      qed
    qed
  qed
qed

lemma smod_nonneg: "0 \<le> a \<Longrightarrow> (a::int) smod b = a mod \<bar>b\<bar>"
  by (cases "a = 0") (simp_all add: smod_int_alt_def)

lemma ring_index:
  assumes "0 < N"
  shows "(int cur + int i) smod int N = int ((cur + i) mod N)"
proof -
  have "(int cur + int i) smod int N = (int cur + int i) mod \<bar>int N\<bar>"
    by (rule smod_nonneg) simp
  then show ?thesis by (simp add: zmod_int)
qed

lemma ringView_nth: "i < N \<Longrightarrow> ringView N s ! i = slotAt s ((currentPos s + i) mod N)"
  by (simp add: ringView_def)

lemma ringView_length: "length (ringView N s) = N"
  by (simp add: ringView_def)

lemma traceLoop_step:
  assumes "i < lineCount" and "(startPos + i) smod int N = int j" and "j < N"
  shows "traceLoop E N lineCount startPos i first s =
           (case disassemblyCache s ! j of
              None \<Rightarrow> traceLoop E N lineCount startPos (i + 1) first s
            | Some d \<Rightarrow>
                (case GetTraceRow E (options s) (memoryManager s) (labelManager s) (executionTrace s)
                        (cpuStateCache s ! j) (ppuStateCache s ! j) (Some d) first of
                   (Some e, out) \<Rightarrow> (Some e, s\<lparr>executionTrace := out\<rparr>)
                 | (None, out) \<Rightarrow>
                     traceLoop E N lineCount startPos (i + 1) False (s\<lparr>executionTrace := out\<rparr>)))"
  using assms by (subst traceLoop.simps) (auto simp add: Let_def split: option.split prod.split)

lemma traceLoop_reads_ring:
  assumes "ring_ok N s" and "i \<le> N"
  shows "traceLoop E N (int N) (int (currentPos s)) (int i) first s =
           (case renderSlots E (options s) (memoryManager s) (labelManager s) (drop i (ringView N s)) first (executionTrace s) of
              (e, t) \<Rightarrow> (e, s\<lparr>executionTrace := t\<rparr>))"
  using assms
proof (induction "N - i" arbitrary: i first s)
  case 0
  then have "i = N" by simp
  then show ?case
    by (subst traceLoop.simps) (simp add: ringView_length)
next
  case (Suc k)
  then have i: "i < N" and N: "0 < N" by simp_all
  define j where "j = (currentPos s + i) mod N"
  have index: "(int (currentPos s) + int i) smod int N = int j"
    using N by (simp add: ring_index j_def)
  have jN: "j < N" using N by (simp add: j_def)
  have dropi: "drop i (ringView N s) = slotAt s j # drop (i + 1) (ringView N s)"
    using i by (simp add: Cons_nth_drop_Suc[symmetric] ringView_length ringView_nth j_def)
  have k: "k = N - (i + 1)" using Suc.hyps(2) by simp
  have ih: "traceLoop E N (int N) (int (currentPos s')) (int i + 1) first' s' =
              (case renderSlots E (options s') (memoryManager s') (labelManager s') (drop (i + 1) (ringView N s')) first'
                      (executionTrace s') of (e, t) \<Rightarrow> (e, s'\<lparr>executionTrace := t\<rparr>))"
    if "ring_ok N s'" for s' first'
  proof -
    have "i + 1 \<le> N" using i by simp
    from Suc.hyps(1)[OF k that this, of first'] show ?thesis
      by (simp only: of_nat_add of_nat_1)
  qed
  have step: "traceLoop E N (int N) (int (currentPos s)) (int i) first s =
           (case disassemblyCache s ! j of
              None \<Rightarrow> traceLoop E N (int N) (int (currentPos s)) (int i + 1) first s
            | Some d \<Rightarrow>
                (case GetTraceRow E (options s) (memoryManager s) (labelManager s) (executionTrace s)
                        (cpuStateCache s ! j) (ppuStateCache s ! j) (Some d) first of
                   (Some e, out) \<Rightarrow> (Some e, s\<lparr>executionTrace := out\<rparr>)
                 | (None, out) \<Rightarrow>
                     traceLoop E N (int N) (int (currentPos s)) (int i + 1) False
                       (s\<lparr>executionTrace := out\<rparr>)))"
    using i by (intro traceLoop_step index jN) simp
  show ?case
  proof (cases "disassemblyCache s ! j")
    case None
    then show ?thesis
      using step ih[OF Suc.prems(1), of first] by (simp add: dropi slotAt_def)
  next
    case (Some d)
    obtain e out where g: "GetTraceRow E (options s) (memoryManager s) (labelManager s) (executionTrace s)
        (cpuStateCache s ! j) (ppuStateCache s ! j) (Some d) first = (e, out)"
      by (cases "GetTraceRow E (options s) (memoryManager s) (labelManager s) (executionTrace s)
        (cpuStateCache s ! j) (ppuStateCache s ! j) (Some d) first") simp
    show ?thesis
    proof (cases e)
      case (Some err)
      then show ?thesis
        using step \<open>disassemblyCache s ! j = Some d\<close> g
        by (simp add: dropi slotAt_def)
    next
      case None
      let ?s1 = "s\<lparr>executionTrace := out\<rparr>"
      have ok1: "ring_ok N ?s1" using Suc.prems(1) by (simp add: ring_ok_def)
      have view1: "ringView N ?s1 = ringView N s"
        by (rule ringView_ringStore) (simp add: ringStore_def)
      show ?thesis
        using step Some g None ih[OF ok1, of False]
        by (simp add: dropi slotAt_def view1)
    qed
  qed
qed

lemma renderSlots_rows:
  "renderSlots E opts mm lm (map slotOf rows) first out = renderRows E opts mm lm rows first out"
proof (induction rows arbitrary: first out)
  case Nil
  show ?case by simp
next
  case (Cons row rows)
  obtain d state where row: "row = (d, state)" by (cases row)
  show ?case using Cons.IH
    by (simp add: row slotOf_def split: prod.split option.split)
qed

lemma sint_small: "n < 2 ^ 31 \<Longrightarrow> sint (word_of_nat n :: 32 word) = int n"
proof -
  assume "n < 2 ^ 31"
  then have "int n < 2 ^ 31" by (simp add: of_nat_less_numeral_power_cancel_iff)
  moreover have "- (2 ^ 31) \<le> int n" by (simp add: order_trans [of _ 0])
  ultimately show ?thesis
    by (simp add: signed_of_nat signed_take_bit_int_eq_self)
qed

lemma GetExecutionTrace_whole_ring:
  assumes ok: "ring_ok N s" and small: "N < 2 ^ 30"
  shows "GetExecutionTrace E N (word_of_nat N) s =
           (case renderSlots E (options s) (memoryManager s) (labelManager s) (ringView N s) True [] of
              (e, t) \<Rightarrow> (e, s\<lparr>executionTrace := t\<rparr>))"
proof -
  let ?s1 = "s\<lparr>executionTrace := []\<rparr>"
  have cur: "currentPos s < 2 ^ 31" and N31: "N < 2 ^ 31"
    using ok small by (simp_all add: ring_ok_def)
  have "(word_of_nat (currentPos s + N) :: 32 word) - word_of_nat N = word_of_nat (currentPos s)"
    by simp
  then have start: "sint ((word_of_nat (currentPos ?s1 + N) :: 32 word) - word_of_nat N)
                      = int (currentPos ?s1)"
    using cur by (simp add: sint_small)
  have count: "sint (word_of_nat N :: 32 word) = int N"
    using N31 by (rule sint_small)
  have ok1: "ring_ok N ?s1" using ok by (simp add: ring_ok_def)
  have view1: "ringView N ?s1 = ringView N s"
    by (rule ringView_ringStore) (simp add: ringStore_def)
  have "GetExecutionTrace E N (word_of_nat N) s
          = traceLoop E N (int N) (int (currentPos ?s1)) (int 0) True ?s1"
    unfolding GetExecutionTrace_def Let_def start count by simp
  also have "\<dots> = (case renderSlots E (options ?s1) (memoryManager ?s1) (labelManager ?s1) (drop 0 (ringView N ?s1)) True
                          (executionTrace ?s1) of (e, t) \<Rightarrow> (e, ?s1\<lparr>executionTrace := t\<rparr>))"
    by (rule traceLoop_reads_ring[OF ok1]) simp
  finally show ?thesis by (simp add: view1)
qed

lemma SetOptions_ring: "ringStore (SetOptions E opts s) = ringStore s"
  by (simp add: SetOptions_def ringStore_def Let_def split: option.split)

lemma StartLogging_ring: "ringStore (StartLogging openOk filename s) = ringStore s"
  by (simp add: StartLogging_def ringStore_def)

lemma StopLogging_ring: "ringStore (StopLogging s) = ringStore s"
  by (simp add: StopLogging_def ringStore_def Let_def)

lemma LogStatic_ring: "LogStatic E log (Some s) = Some s' \<Longrightarrow> ringStore s' = ringStore s"
  by (auto simp add: LogStatic_def ringStore_def Let_def split: if_splits)

lemma LogStatic_Some: "\<exists>s'. LogStatic E log (Some s) = Some s'"
  by (simp add: LogStatic_def Let_def)

lemma GetExecutionTrace_ring: "ringStore (snd (GetExecutionTrace E N lineCount s)) = ringStore s"
proof -
  obtain t where "snd (GetExecutionTrace E N lineCount s) = s\<lparr>executionTrace := []\<rparr>\<lparr>executionTrace := t\<rparr>"
    unfolding GetExecutionTrace_def Let_def using traceLoop_frame by blast
  then show ?thesis by (simp add: ringStore_def)
qed

lemma ConditionMatches_ring: "ringStore (snd (ConditionMatches E state r operationInfo s)) = ringStore s"
  by (simp add: ConditionMatches_def ringStore_def)

lemma ConditionMatches_gate:
  "fst (ConditionMatches E state r operationInfo s) = gatePasses E state operationInfo s"
  by (simp add: ConditionMatches_def gatePasses_def)

lemma ConditionMatches_pass:
  "gatePasses E state operationInfo s \<Longrightarrow> ConditionMatches E state r operationInfo s = (True, s)"
  by (auto simp add: ConditionMatches_def gatePasses_def)

lemma Log_view:
  assumes ok: "ring_ok N s"
  shows "ring_ok N (snd (Log E N state d operationInfo s)) \<and>
         ringView N (snd (Log E N state d operationInfo s)) =
           (case rowOf E (CallLog state d operationInfo) s of
              None \<Rightarrow> ringView N s | Some row \<Rightarrow> tl (ringView N s) @ [slotOf row])"
proof (cases d)
  case None
  then show ?thesis using ok by (simp add: Log_def)
next
  case (Some h)
  show ?thesis
  proof (cases "gatePasses E state operationInfo s")
    case True
    then have "Log E N state d operationInfo s = AddRow E N (Local (Some h)) state s"
      by (simp add: Log_def Some ConditionMatches_pass)
    then show ?thesis
      using True Some AddRow_view[OF ok, of E "Local (Some h)" state] AddRow_ring_ok[OF ok, of E "Local (Some h)" state]
      by (simp add: deref_def slotOf_def)
  next
    case False
    obtain b s1 where cm: "ConditionMatches E state (Local d) operationInfo s = (b, s1)"
      by (cases "ConditionMatches E state (Local d) operationInfo s")
    then have b: "\<not> b" and ring: "ringStore s1 = ringStore s"
      using False ConditionMatches_gate[of E state "Local d" operationInfo s]
        ConditionMatches_ring[of E state "Local d" operationInfo s] by simp_all
    then have "snd (Log E N state d operationInfo s) = s1"
      using cm by (simp add: Log_def Some)
    then show ?thesis
      using False Some ok ring_ok_ringStore[OF ring, of N] ringView_ringStore[OF ring, of N] by simp
  qed
qed

lemma LogNonExec_view:
  assumes ok: "ring_ok N s"
  shows "ring_ok N (snd (LogNonExec E N operationInfo s)) \<and>
         ringView N (snd (LogNonExec E N operationInfo s)) =
           (case rowOf E (CallLogNonExec operationInfo) s of
              None \<Rightarrow> ringView N s | Some row \<Rightarrow> tl (ringView N s) @ [slotOf row])"
proof (cases "lastDisassemblyInfo s")
  case None
  then show ?thesis using ok by (simp add: LogNonExec_def)
next
  case (Some h)
  show ?thesis
  proof (cases "gatePasses E (lastState s) operationInfo s")
    case True
    then have "LogNonExec E N operationInfo s = AddRow E N Member (lastState s) s"
      by (simp add: LogNonExec_def Some ConditionMatches_pass)
    then show ?thesis
      using True Some AddRow_view[OF ok, of E Member "lastState s"] AddRow_ring_ok[OF ok, of E Member "lastState s"]
      by (simp add: deref_def slotOf_def)
  next
    case False
    obtain b s1 where cm: "ConditionMatches E (lastState s) Member operationInfo s = (b, s1)"
      by (cases "ConditionMatches E (lastState s) Member operationInfo s")
    then have b: "\<not> b" and ring: "ringStore s1 = ringStore s"
      using False ConditionMatches_gate[of E "lastState s" Member operationInfo s]
        ConditionMatches_ring[of E "lastState s" Member operationInfo s] by simp_all
    then have "snd (LogNonExec E N operationInfo s) = s1"
      using cm by (simp add: LogNonExec_def Some)
    then show ?thesis
      using False Some ok ring_ok_ringStore[OF ring, of N] ringView_ringStore[OF ring, of N] by simp
  qed
qed

lemma perform_view:
  assumes ok: "ring_ok N s"
  shows "ring_ok N (snd (perform N E c s)) \<and>
         ringView N (snd (perform N E c s)) =
           (case rowOf E c s of
              None \<Rightarrow> ringView N s | Some row \<Rightarrow> tl (ringView N s) @ [slotOf row])"
proof (cases c)
  case (CallSetOptions opts)
  then show ?thesis
    using ok ring_ok_ringStore[OF SetOptions_ring] ringView_ringStore[OF SetOptions_ring] by simp
next
  case (CallStartLogging openOk filename)
  then show ?thesis
    using ok ring_ok_ringStore[OF StartLogging_ring] ringView_ringStore[OF StartLogging_ring] by simp
next
  case CallStopLogging
  then show ?thesis
    using ok ring_ok_ringStore[OF StopLogging_ring] ringView_ringStore[OF StopLogging_ring] by simp
next
  case (CallLogStatic log)
  obtain s' where s': "LogStatic E log (Some s) = Some s'" using LogStatic_Some by blast
  then show ?thesis
    using CallLogStatic ok ring_ok_ringStore[OF LogStatic_ring[OF s']] ringView_ringStore[OF LogStatic_ring[OF s']]
    by simp
next
  case (CallLog state d operationInfo)
  then show ?thesis using Log_view[OF ok] by simp
next
  case (CallLogNonExec operationInfo)
  then show ?thesis using LogNonExec_view[OF ok] by simp
next
  case (CallGetExecutionTrace lineCount)
  then show ?thesis
    using ok ring_ok_ringStore[OF GetExecutionTrace_ring] ringView_ringStore[OF GetExecutionTrace_ring]
    by simp
qed

lemma performAll_view:
  assumes "ring_ok N s" and "performAll N cs s = (None, s')"
  shows "ring_ok N s' \<and>
         ringView N s' = drop (length (rowsWritten N cs s))
                           (ringView N s @ map slotOf (rowsWritten N cs s))"
  using assms
proof (induction cs arbitrary: s)
  case Nil
  then show ?case by simp
next
  case (Cons Ec cs)
  obtain E c where Ec: "Ec = (E, c)" by (cases Ec)
  obtain e1 s1 where p: "perform N E c s = (e1, s1)" by (cases "perform N E c s")
  have e1: "e1 = None" and rest: "performAll N cs s1 = (None, s')"
    using Cons.prems(2) p by (cases e1; simp add: Ec)+
  have ok1: "ring_ok N s1"
    and view1: "ringView N s1 = (case rowOf E c s of
              None \<Rightarrow> ringView N s | Some row \<Rightarrow> tl (ringView N s) @ [slotOf row])"
    using perform_view[OF Cons.prems(1), of E c] p by simp_all
  have ih: "ring_ok N s' \<and> ringView N s' = drop (length (rowsWritten N cs s1))
                           (ringView N s1 @ map slotOf (rowsWritten N cs s1))"
    by (rule Cons.IH[OF ok1 rest])
  have rows: "rowsWritten N (Ec # cs) s =
                (case rowOf E c s of Some row \<Rightarrow> [row] | None \<Rightarrow> []) @ rowsWritten N cs s1"
    using p e1 by (simp add: Ec)
  have nonempty: "ringView N s \<noteq> []"
    using Cons.prems(1) by (auto simp add: ring_ok_def ringView_def)
  show ?case
  proof (cases "rowOf E c s")
    case None
    then show ?thesis using ih view1 rows by simp
  next
    case (Some row)
    have "tl (ringView N s) @ [slotOf row] = drop 1 (ringView N s @ [slotOf row])"
      using nonempty by (cases "ringView N s") simp_all
    then have e: "ringView N s1 @ map slotOf (rowsWritten N cs s1)
                 = drop 1 (ringView N s @ slotOf row # map slotOf (rowsWritten N cs s1))"
      using view1 Some nonempty by (cases "ringView N s") simp_all
    have "ringView N s' = drop (length (rowsWritten N cs s1))
            (drop 1 (ringView N s @ slotOf row # map slotOf (rowsWritten N cs s1)))"
      using ih e by (simp only:)
    also have "\<dots> = drop (length (row # rowsWritten N cs s1))
            (ringView N s @ map slotOf (row # rowsWritten N cs s1))"
      by (simp del: drop_append)
    finally show ?thesis using ih rows Some by (simp del: drop_append)
  qed
qed

section \<open>Sessions, pending rows and sample runs\<close>

text \<open>
  The constructor leaves a well-formed ring, and \<open>perform_view\<close> shows that every call keeps
  it so: the cursor that \<^verbatim>\<open>AddRow\<close> writes under is always inside the arrays.
\<close>

lemma TraceLogger_ctor_ok: "0 < N \<Longrightarrow> ring_ok N (TraceLogger_ctor N mm lm opts0 firstLine0 lastState0)"
  by (simp add: ring_ok_def TraceLogger_ctor_def)

lemma sampleLogger_ok: "0 < N \<Longrightarrow> ring_ok N (sampleLogger N)"
  by (simp add: sampleLogger_def TraceLogger_ctor_ok)

lemma two: "(2::nat) = Suc (Suc 0)" by simp

lemma AddRow_clears_firstLine:
  "logToFile s \<Longrightarrow> fst (AddRow E N r state s) = None \<Longrightarrow> \<not> firstLine (snd (AddRow E N r state s))"
  by (auto simp add: AddRow_def Let_def split: prod.splits option.splits if_splits)

lemma sample_extra: "ShowExtraInfo sampleOptions"
  by (simp add: sampleOptions_def)

lemma sampleSession_facts:
  "logToFile sampleSession" "ShowExtraInfo (options sampleSession)" "\<not> firstLine sampleSession"
  "is_open (outputFile sampleSession)" "\<not> failed (outputFile sampleSession)"
  "path (outputFile sampleSession) = ''a.txt''"
  "disk (outputFile sampleSession) ''a.txt'' = Some []"
  "outputBuffer sampleSession = ''8000  NOP'' @ replicate 29 CHR '' ''"
  by (simp_all add: sampleSession_def Log_def ConditionMatches_def AddRow_def StartLogging_def
      sampleLogger_def TraceLogger_ctor_def ofstream_open_def deref_def sample_row Let_def
      sample_extra)

lemma restart_keeps_buffer:
  "outputBuffer (StartLogging openOk filename (StopLogging s)) = outputBuffer s"
  by (simp add: StartLogging_def StopLogging_def Let_def)

lemma Log_ringStore:
  "ringStore (snd (Log E N state d operationInfo s)) =
     (case rowOf E (CallLog state d operationInfo) s of
        None \<Rightarrow> ringStore s
      | Some row \<Rightarrow>
          ((disassemblyCache s)[currentPos s := Some (fst row)],
           (cpuStateCache s)[currentPos s := CPU (snd row)],
           (ppuStateCache s)[currentPos s := PPU (snd row)],
           (currentPos s + 1) mod N))"
proof (cases "d \<noteq> None \<and> gatePasses E state operationInfo s")
  case True
  then obtain h where h: "d = Some h" by auto
  have "Log E N state d operationInfo s = AddRow E N (Local (Some h)) state s"
    using True by (simp add: Log_def h ConditionMatches_pass)
  then show ?thesis
    using True AddRow_ring[of E N "Local (Some h)" state s] by (simp add: h ringStore_def deref_def)
next
  case False
  then have row: "rowOf E (CallLog state d operationInfo) s = None"
    by (cases d) auto
  have "ringStore (snd (Log E N state d operationInfo s)) = ringStore s"
  proof (cases d)
    case None
    then show ?thesis by (simp add: Log_def)
  next
    case (Some h)
    then have "\<not> fst (ConditionMatches E state (Local d) operationInfo s)"
      using False by (simp add: ConditionMatches_gate)
    then have "snd (Log E N state d operationInfo s)
                 = snd (ConditionMatches E state (Local d) operationInfo s)"
      by (cases "ConditionMatches E state (Local d) operationInfo s") (simp add: Log_def Some)
    then show ?thesis by (simp add: ConditionMatches_ring)
  qed
  then show ?thesis using row by simp
qed










lemma row_null_eq:
  "GetTraceRow E opts mm lm out cpu ppu None first =
     (Some NullDereference,
      (if first then out else out @ [CHR 0x0A]) @ ToHex16 E (DebugPC cpu) @ ''  '' @
      (if ShowByteCode opts \<or> \<not> IndentCode opts then []
       else replicate (0xFF - unat (SP cpu)) CHR '' ''))"
  by (simp add: GetTraceRow_def Let_def)

lemma AddRow_Member_in_session:
  "logToFile s \<Longrightarrow> fst (AddRow E N Member state s) = Some NullDereference"
  by (simp add: AddRow_def Let_def deref_def row_null_eq)

lemma sampleGated_facts:
  "conditionRpnList sampleGated = [1]" "ring_ok 2 sampleGated" "\<not> logToFile sampleGated"
  "options sampleGated = sampleOptions\<lparr>Condition := ''a == 1''\<rparr>"
  "outputBuffer sampleGated = []" "disassemblyCache sampleGated = [None, None]"
  "currentPos sampleGated = 0"
  by (simp_all add: sampleGated_def SetOptions_def sampleLogger_def TraceLogger_ctor_def
      sampleCollaborators_def sampleOptions_def Let_def ring_ok_def two)

lemma samplePending_eq:
  "Log sampleCollaborators 2 sampleState (Some 5) sampleFetch (StartLogging True ''a.txt'' sampleGated)
     = (None, (StartLogging True ''a.txt'' sampleGated)\<lparr>lastState := sampleState,
                                                        lastDisassemblyInfo := Some 5\<rparr>)"
  using sampleGated_facts(1)
  by (simp add: Log_def ConditionMatches_def StartLogging_def deref_def sampleFetch_def
      sampleCollaborators_def)

lemma pending_row_without_session:
  assumes rpn: "conditionRpnList s \<noteq> []"
    and fetch: "OperationType fetch = ExecOpCode"
    and fails: "\<not> Evaluate E1 (conditionRpnList s) state fetch"
    and passes: "Evaluate E2 (conditionRpnList s) state later"
    and idle: "\<not> logToFile s"
  shows "Log E1 N state (Some d) fetch s
           = (None, s\<lparr>lastState := state, lastDisassemblyInfo := Some d\<rparr>)"
    and "LogNonExec E2 N later (snd (Log E1 N state (Some d) fetch s))
           = (None, s\<lparr>lastState := state,
                       disassemblyCache := (disassemblyCache s)[currentPos s := Some d],
                       cpuStateCache := (cpuStateCache s)[currentPos s := CPU state],
                       ppuStateCache := (ppuStateCache s)[currentPos s := PPU state],
                       currentPos := (currentPos s + 1) mod N,
                       lastDisassemblyInfo := None\<rparr>)"
    and "LogNonExec E3 N again (snd (LogNonExec E2 N later (snd (Log E1 N state (Some d) fetch s))))
           = LogNonExec E2 N later (snd (Log E1 N state (Some d) fetch s))"
proof -
  show 1: "Log E1 N state (Some d) fetch s
           = (None, s\<lparr>lastState := state, lastDisassemblyInfo := Some d\<rparr>)"
    using rpn fetch fails by (simp add: Log_def ConditionMatches_def deref_def)
  show 2: "LogNonExec E2 N later (snd (Log E1 N state (Some d) fetch s))
           = (None, s\<lparr>lastState := state,
                       disassemblyCache := (disassemblyCache s)[currentPos s := Some d],
                       cpuStateCache := (cpuStateCache s)[currentPos s := CPU state],
                       ppuStateCache := (ppuStateCache s)[currentPos s := PPU state],
                       currentPos := (currentPos s + 1) mod N,
                       lastDisassemblyInfo := None\<rparr>)"
    using rpn passes idle
    by (simp add: 1 LogNonExec_def ConditionMatches_def AddRow_def deref_def Let_def)
  show "LogNonExec E3 N again (snd (LogNonExec E2 N later (snd (Log E1 N state (Some d) fetch s))))
           = LogNonExec E2 N later (snd (Log E1 N state (Some d) fetch s))"
    by (simp only: 2) (simp add: LogNonExec_def)
qed

lemma drop_past_ring:
  assumes "length V = N" and "N \<le> length rows"
  shows "drop (length rows) (V @ map f rows) = map f (drop (length rows - N) rows)"
  using assms by (simp add: drop_map)

lemma sampleAt_row:
  "GetTraceRow sampleCollaborators sampleOptions mm lm out (CPU (sampleAt pc)) (PPU (sampleAt pc)) (Some d) first
     = (None, (if first then out else out @ [CHR 0x0A]) @ ToHex16 sampleCollaborators pc @ ''  NOP''
               @ replicate 29 CHR '' '')"
  by (simp add: GetTraceRow_def sampleCollaborators_def sampleOptions_def sampleState_def
      sampleAt_def Let_def)

lemma sampleLogger_fields:
  "conditionRpnList (sampleLogger N) = []" "\<not> logToFile (sampleLogger N)"
  "options (sampleLogger N) = sampleOptions" "currentPos (sampleLogger N) = 0"
  by (simp_all add: sampleLogger_def TraceLogger_ctor_def)

lemma Log_plain:
  assumes "conditionRpnList s = []" and "\<not> logToFile s"
  shows "Log E N state (Some d) operationInfo s =
           (None, s\<lparr>disassemblyCache := (disassemblyCache s)[currentPos s := Some d],
                      cpuStateCache := (cpuStateCache s)[currentPos s := CPU state],
                      ppuStateCache := (ppuStateCache s)[currentPos s := PPU state],
                      currentPos := (currentPos s + 1) mod N,
                      lastDisassemblyInfo := None\<rparr>)"
  using assms by (simp add: Log_def ConditionMatches_def AddRow_def deref_def Let_def)

lemma sample_run:
  "fst (performAll 2 sampleCalls (sampleLogger 2)) = None"
  "options (snd (performAll 2 sampleCalls (sampleLogger 2))) = sampleOptions"
  "rowsWritten 2 sampleCalls (sampleLogger 2)
     = [(1, sampleAt 0x8000), (2, sampleAt 0x8001), (3, sampleAt 0x8002)]"
  by (simp_all add: sampleCalls_def Log_plain sampleLogger_fields gatePasses_def)

lemma first_index_below_ring:
  assumes N: "1 < N" "N < 2 ^ 30" and cur: "currentPos s = 0"
  shows "fst (GetExecutionTrace E N (word_of_nat (N + 1)) s) = Some (OutOfBounds (- 1))"
proof -
  have "(word_of_nat (0 + N) :: 32 word) - word_of_nat (N + 1) = - 1" by simp
  then have start: "sint ((word_of_nat (0 + N) :: 32 word) - word_of_nat (N + 1)) = - 1"
    by simp
  have count: "sint (word_of_nat (N + 1) :: 32 word) = int (N + 1)"
    using N by (intro sint_small) simp
  have cur1: "currentPos (s\<lparr>executionTrace := []\<rparr>) = 0" using cur by simp
  have "GetExecutionTrace E N (word_of_nat (N + 1)) s
          = traceLoop E N (int (N + 1)) (- 1) 0 True (s\<lparr>executionTrace := []\<rparr>)"
    unfolding GetExecutionTrace_def Let_def by (simp only: cur1 start count)
  also have "fst \<dots> = Some (OutOfBounds (- 1))"
    using N by (subst traceLoop.simps) (simp add: Let_def smod_int_alt_def)
  finally show ?thesis .
qed

lemma sampleSession_run:
  "performAll 2 [(sampleCollaborators, CallLog sampleState (Some 5) sampleFetch)]
     (StartLogging True ''a.txt'' (sampleLogger 2)) = (None, sampleSession)"
  "rowsWritten 2 [(sampleCollaborators, CallLog sampleState (Some 5) sampleFetch)]
     (StartLogging True ''a.txt'' (sampleLogger 2)) = [(5, sampleState)]"
proof -
  let ?s = "StartLogging True ''a.txt'' (sampleLogger 2)"
  have empty: "conditionRpnList ?s = []" and on: "logToFile ?s"
    by (simp_all add: StartLogging_def sampleLogger_fields)
  have options: "options ?s = sampleOptions"
    by (simp add: StartLogging_def sampleLogger_fields)
  have "fst (Log sampleCollaborators 2 sampleState (Some 5) sampleFetch ?s) = None"
    using empty on
    by (simp add: Log_def ConditionMatches_def AddRow_def deref_def Let_def sample_row options)
  then have log: "Log sampleCollaborators 2 sampleState (Some 5) sampleFetch ?s = (None, sampleSession)"
    by (simp add: sampleSession_def prod_eq_iff)
  show "performAll 2 [(sampleCollaborators, CallLog sampleState (Some 5) sampleFetch)] ?s
          = (None, sampleSession)"
    by (simp add: log)
  show "rowsWritten 2 [(sampleCollaborators, CallLog sampleState (Some 5) sampleFetch)] ?s
          = [(5, sampleState)]"
    using empty by (simp add: log gatePasses_def)
qed

lemma hex_8001: "ToHex16 sampleCollaborators 0x8001 = ''8001''"
  and hex_8002: "ToHex16 sampleCollaborators 0x8002 = ''8002''"
  by (simp_all add: sampleCollaborators_def hexDigit_def)

lemma AddRow_logToFile: "logToFile (snd (AddRow E N r state s)) = logToFile s"
  by (simp add: AddRow_def Let_def split: prod.split option.split)

lemma ConditionMatches_session:
  "logToFile (snd (ConditionMatches E state r operationInfo s)) = logToFile s"
  "firstLine (snd (ConditionMatches E state r operationInfo s)) = firstLine s"
  by (simp_all add: ConditionMatches_def)

lemma Log_session:
  assumes "Log E N state d operationInfo s = (None, s1)" and "logToFile s1"
  shows "logToFile s \<and> (firstLine s1 \<longleftrightarrow> firstLine s \<and> rowOf E (CallLog state d operationInfo) s = None)"
proof (cases "d \<noteq> None \<and> gatePasses E state operationInfo s")
  case True
  then obtain h where h: "d = Some h" by auto
  have eq: "Log E N state d operationInfo s = AddRow E N (Local (Some h)) state s"
    using True by (simp add: Log_def h ConditionMatches_pass)
  then have a: "AddRow E N (Local (Some h)) state s = (None, s1)" using assms(1) by simp
  then have "logToFile s" using assms(2) AddRow_logToFile[of E N "Local (Some h)" state s] by simp
  then show ?thesis
    using True h a AddRow_clears_firstLine[of s E N "Local (Some h)" state] by simp
next
  case False
  then have row: "rowOf E (CallLog state d operationInfo) s = None"
    by (cases d) auto
  have "snd (Log E N state d operationInfo s) = s \<or>
        snd (Log E N state d operationInfo s) = snd (ConditionMatches E state (Local d) operationInfo s)"
  proof (cases d)
    case None
    then show ?thesis by (simp add: Log_def)
  next
    case (Some h)
    then have "\<not> fst (ConditionMatches E state (Local d) operationInfo s)"
      using False by (simp add: ConditionMatches_gate)
    then show ?thesis
      by (cases "ConditionMatches E state (Local d) operationInfo s") (simp add: Log_def Some)
  qed
  then show ?thesis using assms row by (auto simp add: ConditionMatches_session)
qed

lemma LogNonExec_session:
  assumes "LogNonExec E N operationInfo s = (None, s1)" and "logToFile s1"
  shows "logToFile s \<and> (firstLine s1 \<longleftrightarrow> firstLine s \<and> rowOf E (CallLogNonExec operationInfo) s = None)"
proof (cases "lastDisassemblyInfo s \<noteq> None \<and> gatePasses E (lastState s) operationInfo s")
  case True
  then obtain h where h: "lastDisassemblyInfo s = Some h" by auto
  have eq: "LogNonExec E N operationInfo s = AddRow E N Member (lastState s) s"
    using True by (simp add: LogNonExec_def h ConditionMatches_pass)
  then have a: "AddRow E N Member (lastState s) s = (None, s1)" using assms(1) by simp
  then have "logToFile s" using assms(2) AddRow_logToFile[of E N Member "lastState s" s] by simp
  then show ?thesis
    using True h a AddRow_clears_firstLine[of s E N Member "lastState s"] by simp
next
  case False
  then have row: "rowOf E (CallLogNonExec operationInfo) s = None"
    by (cases "lastDisassemblyInfo s") auto
  have "snd (LogNonExec E N operationInfo s) = s \<or>
        snd (LogNonExec E N operationInfo s)
          = snd (ConditionMatches E (lastState s) Member operationInfo s)"
  proof (cases "lastDisassemblyInfo s")
    case None
    then show ?thesis by (simp add: LogNonExec_def)
  next
    case (Some h)
    then have "\<not> fst (ConditionMatches E (lastState s) Member operationInfo s)"
      using False by (simp add: ConditionMatches_gate)
    then show ?thesis
      by (cases "ConditionMatches E (lastState s) Member operationInfo s")
         (simp add: LogNonExec_def Some)
  qed
  then show ?thesis using assms row by (auto simp add: ConditionMatches_session)
qed

lemma GetExecutionTrace_session:
  "logToFile (snd (GetExecutionTrace E N lineCount s)) = logToFile s"
  "firstLine (snd (GetExecutionTrace E N lineCount s)) = firstLine s"
proof -
  obtain t where "snd (GetExecutionTrace E N lineCount s) = s\<lparr>executionTrace := []\<rparr>\<lparr>executionTrace := t\<rparr>"
    unfolding GetExecutionTrace_def Let_def using traceLoop_frame by blast
  then show "logToFile (snd (GetExecutionTrace E N lineCount s)) = logToFile s"
    "firstLine (snd (GetExecutionTrace E N lineCount s)) = firstLine s" by simp_all
qed

lemma perform_session:
  assumes "perform N E c s = (None, s1)" and "\<not> startCall c" and "logToFile s1"
  shows "logToFile s \<and> (firstLine s1 \<longleftrightarrow> firstLine s \<and> rowOf E c s = None)"
proof (cases c)
  case (CallSetOptions opts)
  then show ?thesis using assms by (auto simp add: SetOptions_def Let_def split: option.splits if_splits)
next
  case (CallStartLogging openOk filename)
  then show ?thesis using assms by simp
next
  case CallStopLogging
  then show ?thesis using assms by (auto simp add: StopLogging_def Let_def split: if_splits)
next
  case (CallLogStatic log)
  then show ?thesis using assms by (auto simp add: LogStatic_def Let_def split: if_splits)
next
  case (CallLog state d operationInfo)
  then show ?thesis using assms Log_session[of E N state d operationInfo s s1] by simp
next
  case (CallLogNonExec operationInfo)
  then show ?thesis using assms LogNonExec_session[of E N operationInfo s s1] by simp
next
  case (CallGetExecutionTrace lineCount)
  then show ?thesis
    using assms GetExecutionTrace_session[of E N lineCount s] by auto
qed

lemma performAll_session:
  assumes "performAll N cs s = (None, s')" and "\<forall>(E, c) \<in> set cs. \<not> startCall c" and "logToFile s'"
  shows "logToFile s \<and> (firstLine s' \<longleftrightarrow> firstLine s \<and> rowsWritten N cs s = [])"
  using assms
proof (induction cs arbitrary: s)
  case Nil
  then show ?case by simp
next
  case (Cons Ec cs)
  obtain E c where Ec: "Ec = (E, c)" by (cases Ec)
  obtain e1 s1 where p: "perform N E c s = (e1, s1)" by (cases "perform N E c s")
  have e1: "e1 = None" and rest: "performAll N cs s1 = (None, s')"
    using Cons.prems(1) p by (cases e1; simp add: Ec)+
  have c: "\<not> startCall c" and cs: "\<forall>(E, c) \<in> set cs. \<not> startCall c"
    using Cons.prems(2) Ec by simp_all
  have ih: "logToFile s1 \<and> (firstLine s' \<longleftrightarrow> firstLine s1 \<and> rowsWritten N cs s1 = [])"
    by (rule Cons.IH[OF rest cs Cons.prems(3)])
  have step: "logToFile s \<and> (firstLine s1 \<longleftrightarrow> firstLine s \<and> rowOf E c s = None)"
    using perform_session[of N E c s s1] p e1 c ih by simp
  show ?case using ih step p e1 by (cases "rowOf E c s") (simp_all add: Ec)
qed

lemma session_firstLine:
  assumes "performAll N cs (StartLogging openOk filename s) = (None, s')"
    and "\<forall>(E, c) \<in> set cs. \<not> startCall c" and "logToFile s'"
  shows "firstLine s' \<longleftrightarrow> rowsWritten N cs (StartLogging openOk filename s) = []"
  using performAll_session[OF assms] by (simp add: StartLogging_firstLine)












lemma Log_empty_program:
  assumes "conditionRpnList s = []"
  shows "ringStore (snd (Log E N state (Some d) operationInfo s)) =
           ((disassemblyCache s)[currentPos s := Some d],
            (cpuStateCache s)[currentPos s := CPU state],
            (ppuStateCache s)[currentPos s := PPU state],
            (currentPos s + 1) mod N)"
  using assms by (simp add: Log_ringStore gatePasses_def)

section \<open>The claims\<close>

text \<open>
  Claim C1 says that \<open>stopSession\<close> followed by \<open>startSession\<close> begins the new session
  with an empty accumulator and \<open>firstLine\<close> true, so that no text of the prior session
  reaches the new file. \<^verbatim>\<open>StopLogging\<close> writes \<^verbatim>\<open>_outputBuffer\<close> but, unlike \<^verbatim>\<open>AddRow\<close> and
  \<^verbatim>\<open>LogStatic\<close>, does not clear it, and \<^verbatim>\<open>StartLogging\<close> does not either
  (\<open>restart_keeps_buffer\<close>). After one row was recorded in a session on \<open>a.txt\<close>, stopping
  and starting a session on \<open>b.txt\<close> resets \<open>firstLine\<close> but leaves that row in the
  accumulator, and the next flush writes it to \<open>b.txt\<close>.
\<close>

theorem C1_restart_keeps_buffer:
  "outputBuffer (StartLogging True ''b.txt'' (StopLogging sampleSession))
     = ''8000  NOP'' @ replicate 29 CHR '' '' \<and>
   firstLine (StartLogging True ''b.txt'' (StopLogging sampleSession)) \<and>
   disk (outputFile (StopLogging sampleSession)) ''a.txt''
     = Some (''8000  NOP'' @ replicate 29 CHR '' '') \<and>
   disk (outputFile (StopLogging (StartLogging True ''b.txt'' (StopLogging sampleSession)))) ''b.txt''
     = Some (''8000  NOP'' @ replicate 29 CHR '' '')"
proof -
  let ?row = "''8000  NOP'' @ replicate 29 CHR '' ''"
  have stop: "outputFile (StopLogging sampleSession)
                = (outputFile sampleSession)\<lparr>is_open := False, disk := (disk (outputFile sampleSession))(''a.txt'' \<mapsto> ?row)\<rparr>"
    "outputBuffer (StopLogging sampleSession) = ?row" "\<not> logToFile (StopLogging sampleSession)"
    using sampleSession_facts
    by (simp_all add: StopLogging_def Let_def ofstream_write_def ofstream_close_def)
  let ?s4 = "StartLogging True ''b.txt'' (StopLogging sampleSession)"
  have start: "outputBuffer ?s4 = ?row" "firstLine ?s4" "logToFile ?s4"
    "is_open (outputFile ?s4)" "\<not> failed (outputFile ?s4)" "path (outputFile ?s4) = ''b.txt''"
    "disk (outputFile ?s4) ''b.txt'' = Some []"
    using stop sampleSession_facts by (simp_all add: StartLogging_def ofstream_open_def)
  have "disk (outputFile (StopLogging ?s4)) ''b.txt'' = Some ?row"
    using start by (simp add: StopLogging_def Let_def ofstream_write_def ofstream_close_def)
  then show ?thesis using stop start by simp
qed




text \<open>
  Claim C3, as the code has it. In Text mode the field holds one character for each of the
  eight bit positions, taken from the most significant bit down in the order
  N,V,B,-,D,I,Z,C: the uppercase letter when the bit is set, the lowercase letter when it is
  clear (the fourth position is \<open>-\<close> either way), with no padding. For the status byte
  \<open>0b10010001\<close> the field is \<open>Nvb-dizC\<close>.
\<close>

theorem C3_text_status_field:
  "StatusFormat opts = Text \<Longrightarrow>
     GetStatusFlag E opts output ps = output @ '' P:'' @ map (textLetter ps) [0..<8] \<and>
     length (map (textLetter ps) [0..<8]) = 8 \<and>
     GetStatusFlag E opts output 0x91 = output @ '' P:Nvb-dizC''"
  using GetStatusFlag_Text[of opts E "output"] textLetters_0x91 by simp

theorem C3_text_status_field_witness:
  "StatusFormat (sampleOptions\<lparr>StatusFormat := Text\<rparr>) = Text \<and>
   GetStatusFlag sampleCollaborators (sampleOptions\<lparr>StatusFormat := Text\<rparr>) [] 0x91
     = '' P:Nvb-dizC''"
  using C3_text_status_field[of "sampleOptions\<lparr>StatusFormat := Text\<rparr>" sampleCollaborators "[]" "0x91"]
  by (simp add: textLetters_0x91)

text \<open>The string claim C3 gives for \<open>0b10010001\<close> is not the one the code produces.\<close>

theorem C3_text_status_field_counterexample:
  "GetStatusFlag sampleCollaborators (sampleOptions\<lparr>StatusFormat := Text\<rparr>) [] 0x91
     \<noteq> '' P:Nv-B-d-ZC''"
  using GetStatusFlag_Text[of "sampleOptions\<lparr>StatusFormat := Text\<rparr>" sampleCollaborators "[]" "0x91"]
    textLetters_0x91
  by simp

text \<open>
  Claim C4. Take any run of calls of the public interface that ends without an error, from a
  state with a well-formed ring of \<open>N\<close> slots, in which more than \<open>N\<close> rows were
  written. Then \<open>getRecentTrace(N)\<close> renders exactly the last \<open>N\<close> rows written, in the
  order of writing, oldest first and newest last (and stops where the formatter fails, if it
  does). \<open>N < 2^30\<close> keeps \<^verbatim>\<open>_currentPos + ExecutionLogSize\<close> inside \<^verbatim>\<open>int\<close>.
\<close>

theorem C4_recent_trace_whole_ring:
  assumes "ring_ok N s0" and "N < 2 ^ 30"
    and "performAll N calls s0 = (None, s)"
    and "N < length (rowsWritten N calls s0)"
  shows "GetExecutionTrace E N (word_of_nat N) s =
           (case renderRows E (options s) (memoryManager s) (labelManager s)
                   (drop (length (rowsWritten N calls s0) - N) (rowsWritten N calls s0)) True [] of
              (e, t) \<Rightarrow> (e, s\<lparr>executionTrace := t\<rparr>))"
proof -
  let ?rows = "rowsWritten N calls s0"
  have ok: "ring_ok N s"
    and view: "ringView N s = drop (length ?rows) (ringView N s0 @ map slotOf ?rows)"
    using performAll_view[OF assms(1) assms(3)] by simp_all
  have "ringView N s = map slotOf (drop (length ?rows - N) ?rows)"
    unfolding view using assms(4) by (intro drop_past_ring) (simp_all add: ringView_length)
  then show ?thesis
    using GetExecutionTrace_whole_ring[OF ok assms(2), of E] by (simp add: renderSlots_rows)
qed

theorem C4_recent_trace_whole_ring_witness:
  "ring_ok 2 (sampleLogger 2) \<and> (2::nat) < 2 ^ 30 \<and>
   performAll 2 sampleCalls (sampleLogger 2) = (None, snd (performAll 2 sampleCalls (sampleLogger 2))) \<and>
   2 < length (rowsWritten 2 sampleCalls (sampleLogger 2)) \<and>
   fst (GetExecutionTrace sampleCollaborators 2 2 (snd (performAll 2 sampleCalls (sampleLogger 2))))
     = None \<and>
   executionTrace
     (snd (GetExecutionTrace sampleCollaborators 2 2 (snd (performAll 2 sampleCalls (sampleLogger 2)))))
     = ''8001  NOP'' @ replicate 29 CHR '' '' @ [CHR 0x0A] @ ''8002  NOP'' @ replicate 29 CHR '' ''"
proof -
  have ok: "ring_ok 2 (sampleLogger 2)" by (simp add: sampleLogger_ok)
  have small: "(2::nat) < 2 ^ 30" by simp
  have run: "performAll 2 sampleCalls (sampleLogger 2)
               = (None, snd (performAll 2 sampleCalls (sampleLogger 2)))"
    using sample_run(1) by (simp add: prod_eq_iff)
  have many: "2 < length (rowsWritten 2 sampleCalls (sampleLogger 2))"
    by (simp add: sample_run(3))
  have last2: "drop (length (rowsWritten 2 sampleCalls (sampleLogger 2)) - 2)
                 (rowsWritten 2 sampleCalls (sampleLogger 2))
               = [(2, sampleAt 0x8001), (3, sampleAt 0x8002)]"
    by (simp add: sample_run(3))
  show ?thesis
    using C4_recent_trace_whole_ring[OF ok small run many, of sampleCollaborators] ok run many
    by (simp add: last2 sample_run(2) sampleAt_row hex_8001 hex_8002)
qed

text \<open>
  Claim C5 says that \<open>getRecentTrace\<close> reads inside \<open>[0, capacity)\<close> for every
  \<open>lineCount\<close>. With the capacity of 30000 slots, a fresh logger (cursor 0) and
  \<open>lineCount = 30001\<close>, \<^verbatim>\<open>startPos\<close> is \<open>-1\<close> and the first index computed is
  \<open>-1 % 30000 = -1\<close>: the first read is below the arrays.
\<close>

theorem C5_line_count_beyond_ring:
  "fst (GetExecutionTrace sampleCollaborators 30000 30001 (sampleLogger 30000))
     = Some (OutOfBounds (- 1))"
  using first_index_below_ring[of 30000 "sampleLogger 30000" sampleCollaborators]
  by (simp add: sampleLogger_fields)

text \<open>
  Claim C6 says that a pending instruction whose condition passes on a later
  \<open>recordPending\<close> call is recorded once, from the retained snapshot and handle. Without a
  session the code does that (\<open>pending_row_without_session\<close>). With a session active,
  \<^verbatim>\<open>LogNonExec\<close> hands \<^verbatim>\<open>AddRow\<close> a reference to \<^verbatim>\<open>_lastDisassemblyInfo\<close> itself; \<^verbatim>\<open>AddRow\<close>
  resets that field and then formats the file row through the same reference, which is null
  by then.
\<close>

theorem C6_pending_row_in_session:
  "fst (Log sampleCollaborators 2 sampleState (Some 5) sampleFetch
          (StartLogging True ''a.txt'' sampleGated)) = None \<and>
   lastDisassemblyInfo samplePending = Some 5 \<and>
   lastState samplePending = sampleState \<and>
   disassemblyCache samplePending = [None, None] \<and>
   logToFile samplePending \<and>
   gatePasses sampleCollaborators (lastState samplePending) sampleWrite samplePending \<and>
   fst (LogNonExec sampleCollaborators 2 sampleWrite samplePending) = Some NullDereference"
proof -
  have p: "samplePending = (StartLogging True ''a.txt'' sampleGated)\<lparr>lastState := sampleState,
                                                        lastDisassemblyInfo := Some 5\<rparr>"
    by (simp add: samplePending_def samplePending_eq)
  have fields: "lastDisassemblyInfo samplePending = Some 5" "lastState samplePending = sampleState"
    "disassemblyCache samplePending = [None, None]" "logToFile samplePending"
    "conditionRpnList samplePending = [1]"
    using sampleGated_facts by (simp_all add: p StartLogging_def)
  have gate: "gatePasses sampleCollaborators (lastState samplePending) sampleWrite samplePending"
    by (simp add: gatePasses_def sampleCollaborators_def sampleWrite_def)
  have "LogNonExec sampleCollaborators 2 sampleWrite samplePending
          = AddRow sampleCollaborators 2 Member (lastState samplePending) samplePending"
    using fields(1) gate by (simp add: LogNonExec_def ConditionMatches_pass)
  moreover have "fst (AddRow sampleCollaborators 2 Member (lastState samplePending) samplePending)
          = Some NullDereference"
    using fields(4) by (rule AddRow_Member_in_session)
  ultimately show ?thesis using fields gate samplePending_eq by simp
qed

text \<open>
  Claim C7, as the code has it. In the abbreviated mode only the set bits emit their
  uppercase letter, in the order N,V,B,-,D,I,Z,C. The letters are followed by as many
  spaces as are left of a budget of 6, and by none when seven or eight bits are set: the
  field is 6 characters wide when at most six bits are set, and as wide as the number of
  set bits otherwise.
\<close>

theorem C7_compact_status_field:
  "StatusFormat opts = CompactText \<Longrightarrow>
     GetStatusFlag E opts output ps =
       output @ '' P:'' @ setLetters ps @ replicate (6 - length (setLetters ps)) CHR '' '' \<and>
     length (setLetters ps @ replicate (6 - length (setLetters ps)) CHR '' '')
       = max 6 (length (setLetters ps)) \<and>
     length (setLetters ps) \<le> 8"
  using GetStatusFlag_Compact[of opts E "output" ps] setLetters_length[of ps] by auto

theorem C7_compact_status_field_witness:
  "StatusFormat (sampleOptions\<lparr>StatusFormat := CompactText\<rparr>) = CompactText \<and>
   GetStatusFlag sampleCollaborators (sampleOptions\<lparr>StatusFormat := CompactText\<rparr>) [] 0x91
     = '' P:N-C   ''"
  using C7_compact_status_field[of "sampleOptions\<lparr>StatusFormat := CompactText\<rparr>"
          sampleCollaborators "[]" "0x91"] setLetters_0x91
  by (simp add: numeral_3_eq_3)

text \<open>With all eight bits set the abbreviated field is 8 characters wide, not 6.\<close>

theorem C7_compact_status_field_counterexample:
  "GetStatusFlag sampleCollaborators (sampleOptions\<lparr>StatusFormat := CompactText\<rparr>) [] 0xFF
     = '' P:NVB-DIZC'' \<and>
   length ''NVB-DIZC'' \<noteq> (6::nat)"
  using GetStatusFlag_Compact[of "sampleOptions\<lparr>StatusFormat := CompactText\<rparr>"
          sampleCollaborators "[]" "0xFF"] setLetters_0xFF
  by simp

text \<open>
  Claim C8. With an empty condition program the gate answers true and leaves the state alone,
  whatever the evaluator would say; a \<open>record\<close> call with a handle then stores the handle
  and the two snapshots in the slot under the cursor, changes no other slot, and moves the
  cursor on by one modulo the capacity. \<^verbatim>\<open>SetOptions\<close> leaves the program empty whenever the
  condition text is empty or does not compile, whatever program the logger \<open>s0\<close> had
  before, and does not touch the ring: the next \<open>record\<close> call with a handle is recorded.
\<close>

theorem C8_empty_condition:
  "(ring_ok N s \<and> conditionRpnList s = [] \<longrightarrow>
      ConditionMatches E state r operationInfo s = (True, s) \<and>
      ConditionMatches E' state r operationInfo s = ConditionMatches E state r operationInfo s \<and>
      slotAt (snd (Log E N state (Some d) operationInfo s)) (currentPos s)
        = (Some d, CPU state, PPU state) \<and>
      disassemblyCache (snd (Log E N state (Some d) operationInfo s))
        = (disassemblyCache s)[currentPos s := Some d] \<and>
      cpuStateCache (snd (Log E N state (Some d) operationInfo s))
        = (cpuStateCache s)[currentPos s := CPU state] \<and>
      ppuStateCache (snd (Log E N state (Some d) operationInfo s))
        = (ppuStateCache s)[currentPos s := PPU state] \<and>
      currentPos (snd (Log E N state (Some d) operationInfo s)) = (currentPos s + 1) mod N) \<and>
   (Condition opts = [] \<or> GetRpnList E0 (Condition opts) = None \<longrightarrow>
      conditionRpnList (SetOptions E0 opts s0) = [] \<and>
      ConditionMatches E state r operationInfo (SetOptions E0 opts s0)
        = (True, SetOptions E0 opts s0) \<and>
      ringStore (SetOptions E0 opts s0) = ringStore s0 \<and>
      ringStore (snd (Log E N state (Some d) operationInfo (SetOptions E0 opts s0))) =
        ((disassemblyCache s0)[currentPos s0 := Some d],
         (cpuStateCache s0)[currentPos s0 := CPU state],
         (ppuStateCache s0)[currentPos s0 := PPU state],
         (currentPos s0 + 1) mod N))"
proof -
  have old: "ConditionMatches E state r operationInfo s = (True, s) \<and>
      ConditionMatches E' state r operationInfo s = ConditionMatches E state r operationInfo s \<and>
      slotAt (snd (Log E N state (Some d) operationInfo s)) (currentPos s)
        = (Some d, CPU state, PPU state) \<and>
      disassemblyCache (snd (Log E N state (Some d) operationInfo s))
        = (disassemblyCache s)[currentPos s := Some d] \<and>
      cpuStateCache (snd (Log E N state (Some d) operationInfo s))
        = (cpuStateCache s)[currentPos s := CPU state] \<and>
      ppuStateCache (snd (Log E N state (Some d) operationInfo s))
        = (ppuStateCache s)[currentPos s := PPU state] \<and>
      currentPos (snd (Log E N state (Some d) operationInfo s)) = (currentPos s + 1) mod N"
    if "ring_ok N s" and "conditionRpnList s = []"
    using that AddRow_ring[of E N "Local (Some d)" state s]
    by (simp add: ConditionMatches_empty Log_def deref_def slotAt_def ring_ok_def)
  have new: "conditionRpnList (SetOptions E0 opts s0) = [] \<and>
      ConditionMatches E state r operationInfo (SetOptions E0 opts s0)
        = (True, SetOptions E0 opts s0) \<and>
      ringStore (SetOptions E0 opts s0) = ringStore s0 \<and>
      ringStore (snd (Log E N state (Some d) operationInfo (SetOptions E0 opts s0))) =
        ((disassemblyCache s0)[currentPos s0 := Some d],
         (cpuStateCache s0)[currentPos s0 := CPU state],
         (ppuStateCache s0)[currentPos s0 := PPU state],
         (currentPos s0 + 1) mod N)"
    if "Condition opts = [] \<or> GetRpnList E0 (Condition opts) = None"
  proof -
    have empty: "conditionRpnList (SetOptions E0 opts s0) = []"
      using that by (rule SetOptions_no_program)
    have ring: "ringStore (SetOptions E0 opts s0) = ringStore s0" by (rule SetOptions_ring)
    then have fields: "disassemblyCache (SetOptions E0 opts s0) = disassemblyCache s0"
      "cpuStateCache (SetOptions E0 opts s0) = cpuStateCache s0"
      "ppuStateCache (SetOptions E0 opts s0) = ppuStateCache s0"
      "currentPos (SetOptions E0 opts s0) = currentPos s0"
      by (simp_all add: ringStore_def)
    show ?thesis
      using empty ring Log_empty_program[OF empty, of E N state d operationInfo]
      by (simp add: ConditionMatches_empty fields)
  qed
  show ?thesis using old new by blast
qed

theorem C8_empty_condition_witness:
  "ring_ok 2 (sampleLogger 2) \<and> conditionRpnList (sampleLogger 2) = [] \<and>
   ConditionMatches sampleCollaborators sampleState (Local (Some 5)) sampleFetch (sampleLogger 2)
     = (True, sampleLogger 2) \<and>
   disassemblyCache (snd (Log sampleCollaborators 2 sampleState (Some 5) sampleFetch (sampleLogger 2)))
     = [Some 5, None] \<and>
   currentPos (snd (Log sampleCollaborators 2 sampleState (Some 5) sampleFetch (sampleLogger 2))) = 1 \<and>
   conditionRpnList sampleGated = [1] \<and>
   GetRpnList sampleCollaborators (Condition (sampleOptions\<lparr>Condition := ''?''\<rparr>)) = None \<and>
   conditionRpnList (SetOptions sampleCollaborators (sampleOptions\<lparr>Condition := ''?''\<rparr>) sampleGated)
     = [] \<and>
   fst (ringStore (snd (Log sampleCollaborators 2 sampleState (Some 5) sampleFetch
          (SetOptions sampleCollaborators (sampleOptions\<lparr>Condition := ''?''\<rparr>) sampleGated))))
     = [Some 5, None]"
proof -
  have ok: "ring_ok 2 (sampleLogger 2)" by (simp add: sampleLogger_ok)
  have empty: "conditionRpnList (sampleLogger 2) = []"
    by (simp add: sampleLogger_def TraceLogger_ctor_def)
  have cache: "disassemblyCache (sampleLogger 2) = [None, None]" and cur: "currentPos (sampleLogger 2) = 0"
    by (simp_all add: sampleLogger_def TraceLogger_ctor_def two)
  have none: "GetRpnList sampleCollaborators (Condition (sampleOptions\<lparr>Condition := ''?''\<rparr>)) = None"
    by (simp add: sampleCollaborators_def)
  show ?thesis
    using C8_empty_condition[where N = 2 and s = "sampleLogger 2"
        and E = sampleCollaborators and state = sampleState
        and r = "Local (Some 5)" and operationInfo = sampleFetch and E' = sampleCollaborators
        and d = 5 and opts = "sampleOptions\<lparr>Condition := ''?''\<rparr>" and ?E0.0 = sampleCollaborators
        and ?s0.0 = sampleGated]
      ok empty none sampleGated_facts
    by (simp add: cache cur)
qed

text \<open>
  Claim C9. \<open>annotate\<close> changes nothing when there is no logger, no session, no extra-info
  option, or \<open>firstLine\<close> still set; in a session \<open>firstLine\<close> is set exactly as long as
  no row has been written since the session started. Otherwise it sends the accumulator and
  then the suffix \<open> - [label - Cycle: n]\<close> to the sink and empties the accumulator,
  whatever the accumulator's size: on an open sink in good state the file grows by the
  accumulator's text followed by the suffix.
\<close>

theorem C9_annotate:
  "LogStatic E log None = None \<and>
   (\<not> (logToFile s \<and> ShowExtraInfo (options s) \<and> \<not> firstLine s) \<longrightarrow>
      LogStatic E log (Some s) = Some s) \<and>
   LogStatic E log (Some (StartLogging openOk filename s)) = Some (StartLogging openOk filename s) \<and>
   (performAll N cs (StartLogging openOk filename s0) = (None, s) \<and>
    (\<forall>(E', c') \<in> set cs. \<not> startCall c') \<and> logToFile s \<longrightarrow>
      (\<not> firstLine s \<longleftrightarrow> rowsWritten N cs (StartLogging openOk filename s0) \<noteq> [])) \<and>
   (logToFile s \<and> ShowExtraInfo (options s) \<and> \<not> firstLine s \<longrightarrow>
      LogStatic E log (Some s) =
        Some (s\<lparr>outputFile :=
                  ofstream_write ('' - ['' @ log @ '' - Cycle: '' @ to_string (GetCycleCount E) @ '']'')
                    (ofstream_write (outputBuffer s) (outputFile s)),
                outputBuffer := []\<rparr>)) \<and>
   (logToFile s \<and> ShowExtraInfo (options s) \<and> \<not> firstLine s \<and>
    is_open (outputFile s) \<and> \<not> failed (outputFile s) \<and>
    disk (outputFile s) (path (outputFile s)) = Some c \<longrightarrow>
      (\<exists>s'. LogStatic E log (Some s) = Some s' \<and> outputBuffer s' = [] \<and>
            disk (outputFile s') (path (outputFile s)) =
              Some (c @ outputBuffer s @ '' - ['' @ log @ '' - Cycle: '' @
                    to_string (GetCycleCount E) @ '']'')))"
proof -
  have a: "LogStatic E log None = None" by (simp add: LogStatic_def)
  have b: "LogStatic E log (Some (StartLogging openOk filename s)) = Some (StartLogging openOk filename s)"
    by (rule LogStatic_idle) (simp add: StartLogging_firstLine)
  have c: "\<not> firstLine s \<longleftrightarrow> rowsWritten N cs (StartLogging openOk filename s0) \<noteq> []"
    if "performAll N cs (StartLogging openOk filename s0) = (None, s)"
      and "\<forall>(E', c') \<in> set cs. \<not> startCall c'" and "logToFile s"
    using session_firstLine[OF that] by simp
  have d: "logToFile s \<and> ShowExtraInfo (options s) \<and> \<not> firstLine s \<and>
      is_open (outputFile s) \<and> \<not> failed (outputFile s) \<and>
      disk (outputFile s) (path (outputFile s)) = Some c \<longrightarrow>
      (\<exists>s'. LogStatic E log (Some s) = Some s' \<and> outputBuffer s' = [] \<and>
            disk (outputFile s') (path (outputFile s)) =
              Some (c @ outputBuffer s @ '' - ['' @ log @ '' - Cycle: '' @
                    to_string (GetCycleCount E) @ '']''))"
    using LogStatic_active[of s E log] write_open[of "outputFile s" c] by simp
  show ?thesis
    using a b c d LogStatic_idle[of s E log] LogStatic_active[of s E log]
    by (simp add: write_twice)
qed

theorem C9_annotate_witness:
  "performAll 2 [(sampleCollaborators, CallLog sampleState (Some 5) sampleFetch)]
     (StartLogging True ''a.txt'' (sampleLogger 2)) = (None, sampleSession) \<and>
   rowsWritten 2 [(sampleCollaborators, CallLog sampleState (Some 5) sampleFetch)]
     (StartLogging True ''a.txt'' (sampleLogger 2)) \<noteq> [] \<and>
   logToFile sampleSession \<and> ShowExtraInfo (options sampleSession) \<and> \<not> firstLine sampleSession \<and>
   is_open (outputFile sampleSession) \<and> \<not> failed (outputFile sampleSession) \<and>
   disk (outputFile sampleSession) (path (outputFile sampleSession)) = Some [] \<and>
   (\<exists>s'. LogStatic sampleCollaborators ''NMI'' (Some sampleSession) = Some s' \<and>
         outputBuffer s' = [] \<and>
         disk (outputFile s') ''a.txt''
           = Some (''8000  NOP'' @ replicate 29 CHR '' '' @ '' - [NMI - Cycle: 7]'')) \<and>
   \<not> logToFile (sampleLogger 2) \<and>
   LogStatic sampleCollaborators ''NMI'' (Some (sampleLogger 2)) = Some (sampleLogger 2)"
proof -
  have cyc: "to_string (GetCycleCount sampleCollaborators) = ''7''"
    by (simp add: sampleCollaborators_def to_string_def decimal.simps)
  have active: "logToFile sampleSession \<and> ShowExtraInfo (options sampleSession) \<and>
      \<not> firstLine sampleSession \<and> is_open (outputFile sampleSession) \<and>
      \<not> failed (outputFile sampleSession) \<and>
      disk (outputFile sampleSession) (path (outputFile sampleSession)) = Some []"
    using sampleSession_facts by simp
  have "logToFile sampleSession \<and> ShowExtraInfo (options sampleSession) \<and>
      \<not> firstLine sampleSession \<and> is_open (outputFile sampleSession) \<and>
      \<not> failed (outputFile sampleSession) \<and>
      disk (outputFile sampleSession) (path (outputFile sampleSession)) = Some [] \<longrightarrow>
      (\<exists>s'. LogStatic sampleCollaborators ''NMI'' (Some sampleSession) = Some s' \<and>
            outputBuffer s' = [] \<and>
            disk (outputFile s') (path (outputFile sampleSession)) =
              Some ([] @ outputBuffer sampleSession @ '' - ['' @ ''NMI'' @ '' - Cycle: '' @
                    to_string (GetCycleCount sampleCollaborators) @ '']''))"
    using C9_annotate[where E = sampleCollaborators and log = "''NMI''" and s = sampleSession
        and c = "[]"]
    by blast
  then have written: "\<exists>s'. LogStatic sampleCollaborators ''NMI'' (Some sampleSession) = Some s' \<and>
         outputBuffer s' = [] \<and>
         disk (outputFile s') ''a.txt''
           = Some (''8000  NOP'' @ replicate 29 CHR '' '' @ '' - [NMI - Cycle: 7]'')"
    using active by (simp add: cyc sampleSession_facts)
  have idle: "\<not> logToFile (sampleLogger 2)" by (simp add: sampleLogger_fields)
  show ?thesis
    using active written idle LogStatic_idle[of "sampleLogger 2"] sampleSession_run by simp
qed

text \<open>
  Claim C10. A \<open>record\<close> call with a null handle returns the state it was given, all fields
  alike, for any collaborators: the gate is not consulted.
\<close>

theorem C10_null_handle: "Log E N state None operationInfo s = (None, s)"
  by (simp add: Log_def)

end
